theory Spec2Isabelle
  imports Main
begin

section \<open>Errors of the storage backend\<close>

text \<open>
  The Go code branches on three kinds of \<open>error\<close> value: a plain error (made by
  \<open>errors.New\<close>, \<open>fmt.Errorf\<close>, or any error that is not an \<open>awserr.Error\<close>), an
  \<open>awserr.Error\<close> with a code and a message, and the \<open>*s3manager.BatchError\<close> of a
  bulk deletion, which is an \<open>awserr.Error\<close> too and whose \<open>OrigErr()\<close> is the slice
  \<open>s3manager.Errors\<close> of its causes. Each cause is the struct
  \<open>s3manager.Error {OrigErr, Bucket, Key}\<close>; a nil \<open>OrigErr\<close> or a nil string
  pointer is \<open>None\<close>.
\<close>

datatype error =
    GoError string
  | AwsError string string
  | BatchError string string "s3manager_Error list"
and s3manager_Error =
    S3ManagerError (OrigErr: "error option") (Bucket: "string option") (Key: "string option")

text \<open>The type assertion \<open>err.(awserr.Error)\<close>: the code and the message when it holds.\<close>

fun asAwsError :: "error \<Rightarrow> (string \<times> string) option" where
  "asAwsError (GoError m) = None"
| "asAwsError (AwsError c m) = Some (c, m)"
| "asAwsError (BatchError c m es) = Some (c, m)"

text \<open>
  The block repeated after a failed call in \<open>Describe\<close> and \<open>Create\<close>: an
  \<open>awserr.Error\<close> is replaced by \<open>errors.New(awsErr.Code() + ": " + awsErr.Message())\<close>,
  any other error is returned as it is.
\<close>

definition flattenAwsError :: "error \<Rightarrow> error" where
  "flattenAwsError e =
     (case asAwsError e of
        Some (c, m) \<Rightarrow> GoError (c @ '': '' @ m)
      | None \<Rightarrow> e)"

section \<open>Data model\<close>

text \<open>
  Modelled from the spec: the struct \<open>BucketDetails\<close> is declared in a file of the
  package that is not among the sources; its fields are those of the data model
  (section 3 of the specification). \<open>Tags\<close> is a Go map (nil and empty are both the empty
  map here); the other fields are strings.
\<close>

record BucketDetails =
  BucketName :: string
  Region :: string
  ARN :: string
  FIPSEndpoint :: string
  Tags :: "string \<rightharpoonup> string"
  Encryption :: string
  Policy :: string
  ObjectOwnership :: string

record bucketPolicyStatement =
  Effect :: string
  Principal :: string
  Action :: "string list"
  Resource :: "string list"

record bucketPolicy =
  Version :: string
  Statement :: "bucketPolicyStatement list"

text \<open>
  The decoded \<open>s3.ServerSideEncryptionConfiguration\<close> is a structure of the SDK that the
  code only passes on; it is kept opaque.
\<close>

type_synonym ServerSideEncryptionConfiguration = string

section \<open>The backend client and the world\<close>

text \<open>
  One constructor per operation that the code issues, with the inputs it builds. The
  first eight are the methods of the interface \<open>S3Client\<close>; \<open>BatchDeleteObjects\<close> is the
  bulk deletion \<open>s3manager.NewBatchDeleteWithClient(...).Delete\<close> over the list iterator
  of the bucket, which \<open>deleteBucketContents\<close> runs on the concrete client.
\<close>

datatype call =
    GetBucketLocation string
  | CreateBucket string string
  | PutBucketTagging string "string \<rightharpoonup> string"
  | PutBucketEncryption string ServerSideEncryptionConfiguration
  | PutBucketPolicy string string
  | DeletePublicAccessBlock string
  | DeleteBucket string
  | GetPublicAccessBlock string
  | BatchDeleteObjects string

datatype operation =
    OpGetBucketLocation
  | OpCreateBucket
  | OpPutBucketTagging
  | OpPutBucketEncryption
  | OpPutBucketPolicy
  | OpDeletePublicAccessBlock
  | OpDeleteBucket
  | OpGetPublicAccessBlock
  | OpBatchDeleteObjects

fun operation_of :: "call \<Rightarrow> operation" where
  "operation_of (GetBucketLocation b) = OpGetBucketLocation"
| "operation_of (CreateBucket b oo) = OpCreateBucket"
| "operation_of (PutBucketTagging b ts) = OpPutBucketTagging"
| "operation_of (PutBucketEncryption b c) = OpPutBucketEncryption"
| "operation_of (PutBucketPolicy b p) = OpPutBucketPolicy"
| "operation_of (DeletePublicAccessBlock b) = OpDeletePublicAccessBlock"
| "operation_of (DeleteBucket b) = OpDeleteBucket"
| "operation_of (GetPublicAccessBlock b) = OpGetPublicAccessBlock"
| "operation_of (BatchDeleteObjects b) = OpBatchDeleteObjects"

text \<open>
  Every operation returns a pair (output, error). The only output fields the code reads
  are \<open>LocationConstraint\<close> of the location lookup and \<open>Location\<close> of the creation, both
  of type \<open>*string\<close>: \<open>resp_out\<close> is that pointer, \<open>resp_err\<close> the error (\<open>None\<close> is nil).
\<close>

datatype response = Response (resp_out: "string option") (resp_err: "error option")

text \<open>
  The world records what the code did: the calls issued to the backend, in order, and
  the seconds spent in \<open>time.Sleep\<close>. Logging is left out.
\<close>

record world =
  calls :: "call list"
  slept :: nat

text \<open>
  The receiver \<open>S3Bucket\<close>. The backend is any deterministic client: its answer to a
  call may depend on all the calls issued before. The standard-library functions the
  code calls are carried with the receiver: \<open>json.Unmarshal\<close> into a \<open>bucketPolicy\<close> and
  into an encryption configuration, and the rendering of a policy template
  (\<open>template.New("policy").Parse\<close> followed by \<open>Execute\<close> against the bucket details).
  They are parameters: a statement about a policy that parses or renders says so as a
  hypothesis, next to the test for the empty policy that the code makes first.
\<close>

record S3Bucket =
  s3svc :: "call list \<Rightarrow> call \<Rightarrow> response"
  unmarshalPolicy :: "string \<Rightarrow> error + bucketPolicy"
  unmarshalEncryption :: "string \<Rightarrow> error + ServerSideEncryptionConfiguration"
  renderTemplate :: "string \<Rightarrow> BucketDetails \<Rightarrow> error + string"

definition invoke :: "S3Bucket \<Rightarrow> call \<Rightarrow> world \<Rightarrow> response \<times> world" where
  "invoke s c w = (s3svc s (calls w) c, w\<lparr>calls := calls w @ [c]\<rparr>)"

definition count_calls :: "operation \<Rightarrow> world \<Rightarrow> nat" where
  "count_calls k w = length (filter (\<lambda>c. operation_of c = k) (calls w))"

section \<open>Describe\<close>

definition buildBucketDetails ::
  "string \<Rightarrow> string \<Rightarrow> string \<Rightarrow> (string \<rightharpoonup> string) \<Rightarrow> BucketDetails" where
  "buildBucketDetails bucketName region partitionId attributes =
     \<lparr> BucketName = bucketName,
       Region = region,
       ARN = ''arn:'' @ partitionId @ '':s3:::'' @ bucketName,
       FIPSEndpoint = ''s3-fips.'' @ region @ ''.amazonaws.com'',
       Tags = Map.empty,
       Encryption = '''',
       Policy = '''',
       ObjectOwnership = '''' \<rparr>"

definition Describe ::
  "S3Bucket \<Rightarrow> string \<Rightarrow> string \<Rightarrow> world \<Rightarrow> (error + BucketDetails) \<times> world" where
  "Describe s bucketName partitionId w =
     (case invoke s (GetBucketLocation bucketName) w of
        (getLocationOutput, w1) \<Rightarrow>
          (case resp_err getLocationOutput of
             Some e \<Rightarrow> (Inl (flattenAwsError e), w1)
           | None \<Rightarrow>
               (let region = (case resp_out getLocationOutput of
                                None \<Rightarrow> ''us-east-1''
                              | Some l \<Rightarrow> l)
                in (Inr (buildBucketDetails bucketName region partitionId Map.empty), w1))))"

section \<open>Modify\<close>

text \<open>\<open>Modify\<close> is a stub in the source: it returns nil and touches nothing.\<close>

definition Modify :: "S3Bucket \<Rightarrow> string \<Rightarrow> BucketDetails \<Rightarrow> world \<Rightarrow> error option \<times> world" where
  "Modify s bucketName bucketDetails w = (None, w)"

section \<open>The public-access reconciler\<close>

definition maxRetries :: nat where
  "maxRetries = 10"

text \<open>\<open>time.Sleep(n * time.Second)\<close>.\<close>

definition sleep :: "nat \<Rightarrow> world \<Rightarrow> world" where
  "sleep n w = w\<lparr>slept := slept w + n\<rparr>"

text \<open>The decimal text that \<open>%v\<close> prints for a slice length.\<close>

function formatInt :: "nat \<Rightarrow> string" where
  "formatInt n =
     (if n < 10 then [''0123456789'' ! n]
      else formatInt (n div 10) @ [''0123456789'' ! (n mod 10)])"
  by pat_completeness auto
termination
  by (relation "measure id") auto

text \<open>
  The probe returns the pair (isDeleted, err). An \<open>awserr.Error\<close> with the code
  \<open>NoSuchPublicAccessBlockConfiguration\<close> means deleted; any other \<open>awserr.Error\<close> is
  returned; a nil error, and an error that is not an \<open>awserr.Error\<close>, give (false, nil).
\<close>

definition checkIsPublicAccessBlockDeleted ::
  "S3Bucket \<Rightarrow> string \<Rightarrow> world \<Rightarrow> (bool \<times> error option) \<times> world" where
  "checkIsPublicAccessBlockDeleted s bucketName w =
     (case invoke s (GetPublicAccessBlock bucketName) w of
        (r, w1) \<Rightarrow>
          ((case resp_err r of
              None \<Rightarrow> (False, None)
            | Some e \<Rightarrow>
                (case asAwsError e of
                   None \<Rightarrow> (False, None)
                 | Some (c, m) \<Rightarrow>
                     if c = ''NoSuchPublicAccessBlockConfiguration'' then (True, None)
                     else (False, Some e))), w1))"

text \<open>
  The loop \<open>for !isDeleted && retries < maxRetries\<close> of \<open>checkDeletePublicAccessBlock\<close>,
  entered after the first probe with \<open>retries = 0\<close>.
\<close>

function pollPublicAccessBlockDeleted ::
  "S3Bucket \<Rightarrow> string \<Rightarrow> bool \<Rightarrow> nat \<Rightarrow> world \<Rightarrow> error option \<times> world" where
  "pollPublicAccessBlockDeleted s bucketName isDeleted retries w =
     (if \<not> isDeleted \<and> retries < maxRetries then
        (case checkIsPublicAccessBlockDeleted s bucketName (sleep 1 w) of
           ((isDeleted', Some e), w') \<Rightarrow> (Some e, w')
         | ((isDeleted', None), w') \<Rightarrow>
             pollPublicAccessBlockDeleted s bucketName isDeleted' (retries + 1) w')
      else (None, w))"
  by pat_completeness auto
termination
  by (relation "measure (\<lambda>(s, bucketName, isDeleted, retries, w). maxRetries - retries)") auto

definition publicAccessPolicy :: bucketPolicyStatement where
  "publicAccessPolicy =
     \<lparr> Effect = ''Allow'', Principal = ''*'', Action = [''s3:GetObject''], Resource = [] \<rparr>"

text \<open>The predicate given to \<open>slices.ContainsFunc\<close>; \<open>slices.Equal\<close> is list equality.\<close>

definition matchesPublicAccessPolicy :: "bucketPolicyStatement \<Rightarrow> bool" where
  "matchesPublicAccessPolicy statement =
     (Effect statement = Effect publicAccessPolicy \<and>
      Principal statement = Principal publicAccessPolicy \<and>
      Action statement = Action publicAccessPolicy)"

definition checkDeletePublicAccessBlock ::
  "S3Bucket \<Rightarrow> BucketDetails \<Rightarrow> string \<Rightarrow> world \<Rightarrow> error option \<times> world" where
  "checkDeletePublicAccessBlock s bucketDetails bucketName w =
     (if Policy bucketDetails = '''' then (None, w)
      else
        (case unmarshalPolicy s (Policy bucketDetails) of
           Inl e \<Rightarrow> (Some e, w)
         | Inr policy \<Rightarrow>
             if length (Statement policy) > 1 then
               (Some (GoError (''expected 1 policy statement, got ''
                                 @ formatInt (length (Statement policy)))), w)
             else if list_ex matchesPublicAccessPolicy (Statement policy) then
               (case invoke s (DeletePublicAccessBlock bucketName) w of
                  (r, w1) \<Rightarrow>
                    (case resp_err r of
                       Some e \<Rightarrow> (Some e, w1)
                     | None \<Rightarrow>
                         (case checkIsPublicAccessBlockDeleted s bucketName w1 of
                            ((isDeleted, Some e), w2) \<Rightarrow> (Some e, w2)
                          | ((isDeleted, None), w2) \<Rightarrow>
                              pollPublicAccessBlockDeleted s bucketName isDeleted 0 w2)))
             else (None, w)))"

section \<open>The policy applier\<close>

definition isAccessDeniedException :: "error \<Rightarrow> bool" where
  "isAccessDeniedException e =
     (case asAwsError e of
        Some (c, m) \<Rightarrow> c = ''AccessDenied''
      | None \<Rightarrow> False)"

text \<open>
  The loop \<open>for err != nil && retries < maxRetries\<close> of \<open>putBucketPolicyWithRetries\<close>,
  entered after the first call with its error and \<open>retries = 0\<close>.
\<close>

function retryPutBucketPolicy ::
  "S3Bucket \<Rightarrow> call \<Rightarrow> error option \<Rightarrow> nat \<Rightarrow> world \<Rightarrow> error option \<times> world" where
  "retryPutBucketPolicy s putPolicyInput err retries w =
     (case err of
        None \<Rightarrow> (None, w)
      | Some e \<Rightarrow>
          if retries < maxRetries then
            (if \<not> isAccessDeniedException e then (Some e, w)
             else
               (case invoke s putPolicyInput w of
                  (r, w1) \<Rightarrow> retryPutBucketPolicy s putPolicyInput (resp_err r) (retries + 1) w1))
          else (Some e, w))"
  by pat_completeness auto
termination
  by (relation "measure (\<lambda>(s, putPolicyInput, err, retries, w). maxRetries - retries)") auto

definition putBucketPolicyWithRetries ::
  "S3Bucket \<Rightarrow> BucketDetails \<Rightarrow> string \<Rightarrow> world \<Rightarrow> error option \<times> world" where
  "putBucketPolicyWithRetries s bucketDetails bucketName w =
     (if length (Policy bucketDetails) = 0 then (None, w)
      else
        (let bucketDetails' = bucketDetails\<lparr>BucketName := bucketName\<rparr> in
         case renderTemplate s (Policy bucketDetails') bucketDetails' of
           Inl e \<Rightarrow> (Some e, w)
         | Inr policy \<Rightarrow>
             (let putPolicyInput = PutBucketPolicy (BucketName bucketDetails') policy in
              case invoke s putPolicyInput w of
                (r, w1) \<Rightarrow> retryPutBucketPolicy s putPolicyInput (resp_err r) 0 w1)))"

section \<open>Create\<close>

definition buildCreateBucketInput :: "string \<Rightarrow> BucketDetails \<Rightarrow> call" where
  "buildCreateBucketInput bucketName bucketDetails =
     CreateBucket bucketName (ObjectOwnership bucketDetails)"

text \<open>The encryption step of \<open>Create\<close> (\<open>if len(bucketDetails.Encryption) > 0 { ... }\<close>).\<close>

definition putBucketEncryption ::
  "S3Bucket \<Rightarrow> string \<Rightarrow> BucketDetails \<Rightarrow> world \<Rightarrow> error option \<times> world" where
  "putBucketEncryption s bucketName bucketDetails w =
     (if length (Encryption bucketDetails) > 0 then
        (case unmarshalEncryption s (Encryption bucketDetails) of
           Inl e \<Rightarrow> (Some e, w)
         | Inr encryptionConfig \<Rightarrow>
             (case invoke s (PutBucketEncryption bucketName encryptionConfig) w of
                (r, w1) \<Rightarrow>
                  (case resp_err r of
                     Some e \<Rightarrow> (Some (flattenAwsError e), w1)
                   | None \<Rightarrow> (None, w1))))
      else (None, w))"

text \<open>
  \<open>Create\<close> returns the pair (location, error): \<open>Inr\<close> the location when the error is
  nil, \<open>Inl\<close> the error otherwise (the string is then empty).
\<close>

definition Create ::
  "S3Bucket \<Rightarrow> string \<Rightarrow> BucketDetails \<Rightarrow> world \<Rightarrow> (error + string) \<times> world" where
  "Create s bucketName bucketDetails w =
     (case invoke s (buildCreateBucketInput bucketName bucketDetails) w of
        (createBucketOutput, w1) \<Rightarrow>
          (case resp_err createBucketOutput of
             Some e \<Rightarrow> (Inl (flattenAwsError e), w1)
           | None \<Rightarrow>
               (case invoke s (PutBucketTagging bucketName (Tags bucketDetails)) w1 of
                  (r, w2) \<Rightarrow>
                    (case resp_err r of
                       Some e \<Rightarrow> (Inl e, w2)
                     | None \<Rightarrow>
                         (case putBucketEncryption s bucketName bucketDetails w2 of
                            (Some e, w3) \<Rightarrow> (Inl e, w3)
                          | (None, w3) \<Rightarrow>
                              (case checkDeletePublicAccessBlock s bucketDetails bucketName w3 of
                                 (Some e, w4) \<Rightarrow> (Inl e, w4)
                               | (None, w4) \<Rightarrow>
                                   (case putBucketPolicyWithRetries s bucketDetails bucketName w4 of
                                      (Some e, w5) \<Rightarrow> (Inl e, w5)
                                    | (None, w5) \<Rightarrow>
                                        (Inr (case resp_out createBucketOutput of
                                                None \<Rightarrow> ''''
                                              | Some l \<Rightarrow> l), w5))))))))"

section \<open>Delete\<close>

text \<open>A Go call either returns or panics.\<close>

datatype 'a outcome = Returns 'a | Panics string

text \<open>
  \<open>isBatchDeleteNoBucketError\<close> indexes \<open>origBatchErrs[0]\<close> after excluding only the
  lengths above one: on an empty slice of causes the index panics. The code calls it on a
  \<open>*s3manager.BatchError\<close> only; on any other error the assertion of \<open>OrigErr()\<close> to
  \<open>s3manager.Errors\<close> does not hold here, and the result is false.
\<close>

fun isNoSuchBucketError :: "error \<Rightarrow> bool outcome"
and isBatchDeleteNoBucketError :: "error \<Rightarrow> bool outcome" where
  "isNoSuchBucketError (GoError m) = Returns False"
| "isNoSuchBucketError (AwsError c m) = Returns (c = ''NoSuchBucket'')"
| "isNoSuchBucketError (BatchError c m es) = isBatchDeleteNoBucketError (BatchError c m es)"
| "isBatchDeleteNoBucketError (BatchError c m origBatchErrs) =
     (if length origBatchErrs > 1 then Returns False
      else
        (case origBatchErrs of
           [] \<Rightarrow> Panics ''index out of range [0] with length 0''
         | S3ManagerError origErr b k # rest \<Rightarrow>
             (case origErr of
                Some e \<Rightarrow> isNoSuchBucketError e
              | None \<Rightarrow> Returns False)))"
| "isBatchDeleteNoBucketError (GoError m) = Returns False"
| "isBatchDeleteNoBucketError (AwsError c m) = Returns False"

definition handleDeleteError :: "error \<Rightarrow> error option outcome" where
  "handleDeleteError e =
     (case isNoSuchBucketError e of
        Panics p \<Rightarrow> Panics p
      | Returns True \<Rightarrow> Returns None
      | Returns False \<Rightarrow> Returns (Some e))"

text \<open>
  \<open>deleteBucketContents\<close> asserts that the client is the concrete \<open>*s3.S3\<close> and hands it
  to the batch deletion of \<open>s3manager\<close>, whose listing and deletion requests are not in
  the sources: the whole batch is the one operation \<open>BatchDeleteObjects\<close>, and its
  answer is the error that \<open>Delete\<close> of the batch returns.
\<close>

definition deleteBucketContents ::
  "S3Bucket \<Rightarrow> string \<Rightarrow> world \<Rightarrow> error option outcome \<times> world" where
  "deleteBucketContents s bucketName w =
     (case invoke s (BatchDeleteObjects bucketName) w of
        (r, w1) \<Rightarrow>
          ((case resp_err r of
              Some e \<Rightarrow> handleDeleteError e
            | None \<Rightarrow> Returns None), w1))"

definition Delete ::
  "S3Bucket \<Rightarrow> string \<Rightarrow> bool \<Rightarrow> world \<Rightarrow> error option outcome \<times> world" where
  "Delete s bucketName deleteObjects w =
     (case (if deleteObjects then deleteBucketContents s bucketName w else (Returns None, w)) of
        (Panics p, w1) \<Rightarrow> (Panics p, w1)
      | (Returns (Some contentDeleteErr), w1) \<Rightarrow> (Returns (Some contentDeleteErr), w1)
      | (Returns None, w1) \<Rightarrow>
          (case invoke s (DeleteBucket bucketName) w1 of
             (r, w2) \<Rightarrow>
               ((case resp_err r of
                   Some e \<Rightarrow> handleDeleteError e
                 | None \<Rightarrow> Returns None), w2)))"

text \<open>
  The errors by which the backend reports the bucket absent, in the words of the
  specification: an error with the code \<open>NoSuchBucket\<close>, or a batch error with exactly
  one cause, whose underlying error has the code \<open>NoSuchBucket\<close>. \<open>okOrAbsent\<close> holds of
  a response without an error and of a response with such an error.
\<close>

fun bucketAbsent :: "error \<Rightarrow> bool" where
  "bucketAbsent (AwsError c m) = (c = ''NoSuchBucket'')"
| "bucketAbsent (BatchError c m [S3ManagerError (Some (AwsError c' m')) bk k]) = (c' = ''NoSuchBucket'')"
| "bucketAbsent e = False"

text \<open>An aggregate error with more than one underlying cause.\<close>

fun moreThanOneCause :: "error \<Rightarrow> bool" where
  "moreThanOneCause (BatchError c m es) = (length es > 1)"
| "moreThanOneCause e = False"

definition okOrAbsent :: "response \<Rightarrow> bool" where
  "okOrAbsent r = (case resp_err r of None \<Rightarrow> True | Some e \<Rightarrow> bucketAbsent e)"

section \<open>Rendering a policy template\<close>

text \<open>
  Modelled from the spec: the template engine behind \<open>renderTemplate\<close> is the library
  \<open>text/template\<close>, which is not among the sources. The specification (section 4.4,
  step 3) asks that the policy be rendered as a template against the bucket details,
  substituting the recognized placeholders, at minimum \<open>BucketName\<close>, and that a parse
  or render failure be a hard error. The model recognizes the one placeholder
  \<open>{{.BucketName}}\<close>: text outside a placeholder is copied, the placeholder is replaced by
  the field \<open>BucketName\<close>, and any other opening \<open>{{\<close> is an error.
\<close>

definition bucketNamePlaceholder :: string where
  "bucketNamePlaceholder = ''{{.BucketName}}''"

function renderPolicyTemplate :: "string \<Rightarrow> BucketDetails \<Rightarrow> error + string" where
  "renderPolicyTemplate [] d = Inr []"
| "renderPolicyTemplate (c # cs) d =
     (if take 2 (c # cs) = ''{{'' then
        (if take (length bucketNamePlaceholder) (c # cs) = bucketNamePlaceholder then
           (case renderPolicyTemplate (drop (length bucketNamePlaceholder) (c # cs)) d of
              Inl e \<Rightarrow> Inl e
            | Inr rest \<Rightarrow> Inr (BucketName d @ rest))
         else Inl (GoError ''template: policy: unrecognized placeholder''))
      else
        (case renderPolicyTemplate cs d of
           Inl e \<Rightarrow> Inl e
         | Inr rest \<Rightarrow> Inr (c # rest)))"
  by pat_completeness auto
termination
  by (relation "measure (\<lambda>(t, d). length t)") (auto simp: bucketNamePlaceholder_def)

text \<open>
  A template whose only placeholders are \<open>{{.BucketName}}\<close> is a list of text segments
  with the placeholder between each two: \<open>joinWith bucketNamePlaceholder segments\<close>. No
  segment contains \<open>{{\<close>, and a segment followed by a placeholder does not end with \<open>{\<close>
  (the three braces would open something that is not the placeholder).
\<close>

fun joinWith :: "string \<Rightarrow> string list \<Rightarrow> string" where
  "joinWith sep [] = []"
| "joinWith sep [x] = x"
| "joinWith sep (x # y # ys) = x @ sep @ joinWith sep (y # ys)"

fun noOpening :: "string \<Rightarrow> bool" where
  "noOpening [] = True"
| "noOpening [c] = True"
| "noOpening (c # c' # cs) = (\<not> (c = CHR ''{'' \<and> c' = CHR ''{'') \<and> noOpening (c' # cs))"

fun plainSegments :: "string list \<Rightarrow> bool" where
  "plainSegments [] = True"
| "plainSegments [x] = noOpening x"
| "plainSegments (x # y # ys) = (noOpening (x @ ''{'') \<and> plainSegments (y # ys))"

section \<open>Example backends and inputs\<close>

definition w0 :: world where
  "w0 = \<lparr> calls = [], slept = 0 \<rparr>"

definition publicReadText :: string where
  \<open>publicReadText = ''{"Statement":[{"Effect":"Allow","Principal":"*","Action":["s3:GetObject"],"Resource":["arn:aws:s3:::my-bucket/*"]}]}''\<close>

definition putObjectText :: string where
  \<open>putObjectText = ''{"Statement":[{"Effect":"Allow","Principal":"*","Action":["s3:PutObject"],"Resource":["arn:aws:s3:::my-bucket/*"]}]}''\<close>

definition twoStatementText :: string where
  \<open>twoStatementText = ''{"Statement":[{"Effect":"Allow","Principal":"*","Action":["s3:GetObject"]},{"Effect":"Deny","Principal":"*","Action":["s3:PutObject"]}]}''\<close>

definition noStatementText :: string where
  \<open>noStatementText = ''{"Statement":[]}''\<close>

definition publicReadPolicy :: bucketPolicy where
  "publicReadPolicy =
     \<lparr> Version = '''',
       Statement = [\<lparr> Effect = ''Allow'', Principal = ''*'', Action = [''s3:GetObject''],
                      Resource = [''arn:aws:s3:::my-bucket/*''] \<rparr>] \<rparr>"

definition putObjectPolicy :: bucketPolicy where
  "putObjectPolicy =
     \<lparr> Version = '''',
       Statement = [\<lparr> Effect = ''Allow'', Principal = ''*'', Action = [''s3:PutObject''],
                      Resource = [''arn:aws:s3:::my-bucket/*''] \<rparr>] \<rparr>"

definition twoStatementPolicy :: bucketPolicy where
  "twoStatementPolicy =
     \<lparr> Version = '''',
       Statement = [\<lparr> Effect = ''Allow'', Principal = ''*'', Action = [''s3:GetObject''],
                      Resource = [] \<rparr>,
                    \<lparr> Effect = ''Deny'', Principal = ''*'', Action = [''s3:PutObject''],
                      Resource = [] \<rparr>] \<rparr>"

definition noStatementPolicy :: bucketPolicy where
  "noStatementPolicy = \<lparr> Version = '''', Statement = [] \<rparr>"

text \<open>What \<open>json.Unmarshal\<close> gives on the four example documents.\<close>

definition exampleUnmarshalPolicy :: "string \<Rightarrow> error + bucketPolicy" where
  "exampleUnmarshalPolicy t =
     (if t = publicReadText then Inr publicReadPolicy
      else if t = putObjectText then Inr putObjectPolicy
      else if t = twoStatementText then Inr twoStatementPolicy
      else if t = noStatementText then Inr noStatementPolicy
      else Inl (GoError ''unexpected end of JSON input''))"

definition exampleS3Bucket :: "(call list \<Rightarrow> call \<Rightarrow> response) \<Rightarrow> S3Bucket" where
  "exampleS3Bucket svc =
     \<lparr> s3svc = svc,
       unmarshalPolicy = exampleUnmarshalPolicy,
       unmarshalEncryption = (\<lambda>t. Inr t),
       renderTemplate = (\<lambda>t d. Inr t) \<rparr>"

definition exampleDetails :: "string \<Rightarrow> BucketDetails" where
  "exampleDetails policyText =
     \<lparr> BucketName = '''', Region = '''', ARN = '''', FIPSEndpoint = '''',
       Tags = Map.empty, Encryption = '''', Policy = policyText,
       ObjectOwnership = ''BucketOwnerEnforced'' \<rparr>"

text \<open>A backend on which every call succeeds and the access block is never seen deleted.\<close>

definition backendOk :: "call list \<Rightarrow> call \<Rightarrow> response" where
  "backendOk h c =
     (case c of
        CreateBucket b oo \<Rightarrow> Response (Some (''/'' @ b)) None
      | _ \<Rightarrow> Response None None)"

text \<open>A backend that denies every policy call.\<close>

definition backendDenied :: "call list \<Rightarrow> call \<Rightarrow> response" where
  "backendDenied h c =
     (case c of
        PutBucketPolicy b p \<Rightarrow> Response None (Some (AwsError ''AccessDenied'' ''Access Denied''))
      | _ \<Rightarrow> backendOk h c)"

text \<open>A backend that refuses to create the bucket.\<close>

definition backendCreateFails :: "call list \<Rightarrow> call \<Rightarrow> response" where
  "backendCreateFails h c =
     (case c of
        CreateBucket b oo \<Rightarrow>
          Response None (Some (AwsError ''BucketAlreadyExists'' ''the bucket name is taken''))
      | _ \<Rightarrow> backendOk h c)"

text \<open>A backend whose buckets are in the region \<open>us-gov-west-1\<close>.\<close>

definition backendGovWest :: "call list \<Rightarrow> call \<Rightarrow> response" where
  "backendGovWest h c =
     (case c of
        GetBucketLocation b \<Rightarrow> Response (Some ''us-gov-west-1'') None
      | _ \<Rightarrow> backendOk h c)"

text \<open>A backend whose location lookup answers with a pointer to the empty string.\<close>

definition backendEmptyLocation :: "call list \<Rightarrow> call \<Rightarrow> response" where
  "backendEmptyLocation h c =
     (case c of
        GetBucketLocation b \<Rightarrow> Response (Some '''') None
      | _ \<Rightarrow> backendOk h c)"

definition noSuchBucketError :: error where
  "noSuchBucketError = AwsError ''NoSuchBucket'' ''The specified bucket does not exist''"

definition wrappedNoSuchBucketError :: "string \<Rightarrow> error" where
  "wrappedNoSuchBucketError b =
     BatchError ''BatchedDeleteIncomplete'' ''some objects have failed to be deleted.''
       [S3ManagerError (Some noSuchBucketError) (Some b) None]"

definition twoCauseError :: "string \<Rightarrow> error" where
  "twoCauseError b =
     BatchError ''BatchedDeleteIncomplete'' ''some objects have failed to be deleted.''
       [S3ManagerError (Some (AwsError ''AccessDenied'' ''Access Denied'')) (Some b) (Some ''a.txt''),
        S3ManagerError (Some (AwsError ''InternalError'' ''We encountered an internal error''))
          (Some b) (Some ''b.txt'')]"

text \<open>
  A backend without the bucket: the bulk deletion reports one cause, \<open>NoSuchBucket\<close>,
  wrapped in a batch error, and the bucket deletion reports \<open>NoSuchBucket\<close> itself.
\<close>

definition backendAbsent :: "call list \<Rightarrow> call \<Rightarrow> response" where
  "backendAbsent h c =
     (case c of
        BatchDeleteObjects b \<Rightarrow> Response None (Some (wrappedNoSuchBucketError b))
      | DeleteBucket b \<Rightarrow> Response None (Some noSuchBucketError)
      | _ \<Rightarrow> backendOk h c)"

text \<open>A backend whose bulk deletion reports two causes.\<close>

definition backendTwoCauses :: "call list \<Rightarrow> call \<Rightarrow> response" where
  "backendTwoCauses h c =
     (case c of
        BatchDeleteObjects b \<Rightarrow> Response None (Some (twoCauseError b))
      | _ \<Rightarrow> backendOk h c)"

text \<open>A backend whose bucket deletion reports an aggregate of two causes.\<close>

definition backendDeleteTwoCauses :: "call list \<Rightarrow> call \<Rightarrow> response" where
  "backendDeleteTwoCauses h c =
     (case c of
        DeleteBucket b \<Rightarrow> Response None (Some (twoCauseError b))
      | _ \<Rightarrow> backendOk h c)"

text \<open>
  A receiver whose template engine is the modelled one, and a policy template with two
  occurrences of the placeholder, as three text segments.
\<close>

definition templatingS3Bucket :: "(call list \<Rightarrow> call \<Rightarrow> response) \<Rightarrow> S3Bucket" where
  "templatingS3Bucket svc = (exampleS3Bucket svc)\<lparr>renderTemplate := renderPolicyTemplate\<rparr>"

definition exampleSegments :: "string list" where
  \<open>exampleSegments = [''{"Id":"'', ''-policy","Resource":["arn:aws:s3:::'', ''/*"]}'']\<close>

declare formatInt.simps [simp del]
declare pollPublicAccessBlockDeleted.simps [simp del]
declare retryPutBucketPolicy.simps [simp del]

section \<open>What the loops do\<close>

lemma probe_calls:
  "calls (snd (checkIsPublicAccessBlockDeleted s b w)) = calls w @ [GetPublicAccessBlock b]"
  by (simp add: checkIsPublicAccessBlockDeleted_def invoke_def split: prod.splits)

lemma probe_slept:
  "slept (snd (checkIsPublicAccessBlockDeleted s b w)) = slept w"
  by (simp add: checkIsPublicAccessBlockDeleted_def invoke_def split: prod.splits)

lemma poll_trace:
  "\<exists>n. n \<le> maxRetries - retries \<and>
       calls (snd (pollPublicAccessBlockDeleted s b isDeleted retries w))
         = calls w @ replicate n (GetPublicAccessBlock b) \<and>
       slept (snd (pollPublicAccessBlockDeleted s b isDeleted retries w)) = slept w + n"
proof (induction s b isDeleted retries w rule: pollPublicAccessBlockDeleted.induct)
  case (1 s b isDeleted retries w)
  show ?case
  proof (cases "\<not> isDeleted \<and> retries < maxRetries")
    case False
    then show ?thesis
      by (subst pollPublicAccessBlockDeleted.simps, subst pollPublicAccessBlockDeleted.simps) auto
  next
    case True
    obtain d e w' where p: "checkIsPublicAccessBlockDeleted s b (sleep 1 w) = ((d, e), w')"
      by (metis surj_pair)
    have c: "calls w' = calls w @ [GetPublicAccessBlock b]"
      using probe_calls [of s b "sleep 1 w"] p by (simp add: sleep_def)
    have sl: "slept w' = slept w + 1"
      using probe_slept [of s b "sleep 1 w"] p by (simp add: sleep_def)
    show ?thesis
    proof (cases e)
      case (Some err)
      have "pollPublicAccessBlockDeleted s b isDeleted retries w = (Some err, w')"
        using True p Some by (subst pollPublicAccessBlockDeleted.simps) simp
      moreover have "1 \<le> maxRetries - retries" using True by arith
      ultimately show ?thesis using c sl
        by (intro exI [of _ 1]) simp
    next
      case None
      have eq: "pollPublicAccessBlockDeleted s b isDeleted retries w
                  = pollPublicAccessBlockDeleted s b d (retries + 1) w'"
        using True p None by (subst pollPublicAccessBlockDeleted.simps) simp
      from "1.IH" [OF True p [symmetric] refl None]
      obtain n where n: "n \<le> maxRetries - (retries + 1)"
        "calls (snd (pollPublicAccessBlockDeleted s b d (retries + 1) w'))
           = calls w' @ replicate n (GetPublicAccessBlock b)"
        "slept (snd (pollPublicAccessBlockDeleted s b d (retries + 1) w')) = slept w' + n"
        by blast
      have bound: "Suc n \<le> maxRetries - retries"
        using n(1) True by arith
      show ?thesis
        using n(2,3) c sl eq bound
        by (intro exI [of _ "Suc n"]) (simp add: replicate_app_Cons_same)
    qed
  qed
qed


lemma probe_unconfirmed:
  "resp_err (s3svc s (calls w) (GetPublicAccessBlock b)) = None \<Longrightarrow>
   fst (checkIsPublicAccessBlockDeleted s b w) = (False, None)"
  by (simp add: checkIsPublicAccessBlockDeleted_def invoke_def)

lemma poll_unconfirmed:
  "\<not> isDeleted \<Longrightarrow>
   \<forall>i < maxRetries - retries.
      resp_err (s3svc s (calls w @ replicate i (GetPublicAccessBlock b)) (GetPublicAccessBlock b)) = None \<Longrightarrow>
   fst (pollPublicAccessBlockDeleted s b isDeleted retries w) = None \<and>
   calls (snd (pollPublicAccessBlockDeleted s b isDeleted retries w))
     = calls w @ replicate (maxRetries - retries) (GetPublicAccessBlock b) \<and>
   slept (snd (pollPublicAccessBlockDeleted s b isDeleted retries w))
     = slept w + (maxRetries - retries)"
proof (induction s b isDeleted retries w rule: pollPublicAccessBlockDeleted.induct)
  case (1 s b isDeleted retries w)
  show ?case
  proof (cases "retries < maxRetries")
    case False
    then show ?thesis
      by (subst pollPublicAccessBlockDeleted.simps, subst pollPublicAccessBlockDeleted.simps,
          subst pollPublicAccessBlockDeleted.simps) simp
  next
    case True
    then have go: "\<not> isDeleted \<and> retries < maxRetries"
      using "1.prems"(1) by simp
    obtain d e w' where p: "checkIsPublicAccessBlockDeleted s b (sleep 1 w) = ((d, e), w')"
      by (metis surj_pair)
    have first: "resp_err (s3svc s (calls (sleep 1 w)) (GetPublicAccessBlock b)) = None"
      using "1.prems"(2) True by (auto simp: sleep_def dest: spec [of _ 0])
    have de: "d = False" "e = None"
      using probe_unconfirmed [OF first] p by simp_all
    have c: "calls w' = calls w @ [GetPublicAccessBlock b]"
      using probe_calls [of s b "sleep 1 w"] p by (simp add: sleep_def)
    have sl: "slept w' = slept w + 1"
      using probe_slept [of s b "sleep 1 w"] p by (simp add: sleep_def)
    have eq: "pollPublicAccessBlockDeleted s b isDeleted retries w
                = pollPublicAccessBlockDeleted s b d (retries + 1) w'"
      using go p de by (subst pollPublicAccessBlockDeleted.simps) simp
    have rest: "\<forall>i < maxRetries - (retries + 1).
        resp_err (s3svc s (calls w' @ replicate i (GetPublicAccessBlock b)) (GetPublicAccessBlock b)) = None"
    proof (intro allI impI)
      fix i assume "i < maxRetries - (retries + 1)"
      then have "Suc i < maxRetries - retries" by arith
      with "1.prems"(2) have "resp_err (s3svc s (calls w @ replicate (Suc i) (GetPublicAccessBlock b))
                                 (GetPublicAccessBlock b)) = None"
        by blast
      then show "resp_err (s3svc s (calls w' @ replicate i (GetPublicAccessBlock b)) (GetPublicAccessBlock b)) = None"
        by (simp add: c)
    qed
    have nd: "\<not> d" using de by simp
    note ih = "1.IH" [OF go p [symmetric] refl de(2) nd rest]
    have len: "Suc (maxRetries - (retries + 1)) = maxRetries - retries"
      using True by arith
    have rep: "GetPublicAccessBlock b # replicate (maxRetries - (retries + 1)) (GetPublicAccessBlock b)
                 = replicate (maxRetries - retries) (GetPublicAccessBlock b)"
      using len by (metis replicate_Suc)
    show ?thesis
      using ih c sl len rep by (simp add: eq)
  qed
qed

lemma reconciler_too_many:
  "Policy d \<noteq> '''' \<Longrightarrow> unmarshalPolicy s (Policy d) = Inr p \<Longrightarrow> length (Statement p) > 1 \<Longrightarrow>
   checkDeletePublicAccessBlock s d b w =
     (Some (GoError (''expected 1 policy statement, got '' @ formatInt (length (Statement p)))), w)"
  by (simp add: checkDeletePublicAccessBlock_def)

lemma reconciler_unmatched:
  "Policy d \<noteq> '''' \<Longrightarrow> unmarshalPolicy s (Policy d) = Inr p \<Longrightarrow> length (Statement p) \<le> 1 \<Longrightarrow>
   \<not> list_ex matchesPublicAccessPolicy (Statement p) \<Longrightarrow>
   checkDeletePublicAccessBlock s d b w = (None, w)"
  by (simp add: checkDeletePublicAccessBlock_def)

lemma reconciler_delete_fails:
  "Policy d \<noteq> '''' \<Longrightarrow> unmarshalPolicy s (Policy d) = Inr p \<Longrightarrow> length (Statement p) \<le> 1 \<Longrightarrow>
   list_ex matchesPublicAccessPolicy (Statement p) \<Longrightarrow>
   resp_err (s3svc s (calls w) (DeletePublicAccessBlock b)) = Some e \<Longrightarrow>
   checkDeletePublicAccessBlock s d b w = (Some e, w\<lparr>calls := calls w @ [DeletePublicAccessBlock b]\<rparr>)"
  by (simp add: checkDeletePublicAccessBlock_def invoke_def)

lemma reconciler_delete_ok:
  assumes "Policy d \<noteq> ''''" "unmarshalPolicy s (Policy d) = Inr p" "length (Statement p) \<le> 1"
    "list_ex matchesPublicAccessPolicy (Statement p)"
    "resp_err (s3svc s (calls w) (DeletePublicAccessBlock b)) = None"
  shows "\<exists>n. 1 \<le> n \<and> n \<le> Suc maxRetries \<and>
           calls (snd (checkDeletePublicAccessBlock s d b w))
             = calls w @ DeletePublicAccessBlock b # replicate n (GetPublicAccessBlock b) \<and>
           slept (snd (checkDeletePublicAccessBlock s d b w)) = slept w + (n - 1)"
proof -
  define w1 where "w1 = w\<lparr>calls := calls w @ [DeletePublicAccessBlock b]\<rparr>"
  obtain isDeleted e w2 where p: "checkIsPublicAccessBlockDeleted s b w1 = ((isDeleted, e), w2)"
    by (metis surj_pair)
  have c2: "calls w2 = calls w @ [DeletePublicAccessBlock b, GetPublicAccessBlock b]"
    using probe_calls [of s b w1] p by (simp add: w1_def)
  have s2: "slept w2 = slept w"
    using probe_slept [of s b w1] p by (simp add: w1_def)
  show ?thesis
  proof (cases e)
    case (Some err)
    have "checkDeletePublicAccessBlock s d b w = (Some err, w2)"
      using assms p Some by (simp add: checkDeletePublicAccessBlock_def invoke_def w1_def)
    then show ?thesis using c2 s2
      by (intro exI [of _ 1]) simp
  next
    case None
    have eq: "checkDeletePublicAccessBlock s d b w = pollPublicAccessBlockDeleted s b isDeleted 0 w2"
      using assms p None by (simp add: checkDeletePublicAccessBlock_def invoke_def w1_def)
    obtain n where n: "n \<le> maxRetries - 0"
      "calls (snd (pollPublicAccessBlockDeleted s b isDeleted 0 w2))
         = calls w2 @ replicate n (GetPublicAccessBlock b)"
      "slept (snd (pollPublicAccessBlockDeleted s b isDeleted 0 w2)) = slept w2 + n"
      using poll_trace [of 0 s b isDeleted w2] by blast
    show ?thesis
      using n c2 s2 by (intro exI [of _ "Suc n"]) (simp add: eq)
  qed
qed

lemma reconciler_all_unconfirmed:
  assumes "Policy d \<noteq> ''''" "unmarshalPolicy s (Policy d) = Inr p" "length (Statement p) \<le> 1"
    "list_ex matchesPublicAccessPolicy (Statement p)"
    "resp_err (s3svc s (calls w) (DeletePublicAccessBlock b)) = None"
    "\<forall>i < Suc maxRetries.
       resp_err (s3svc s (calls w @ DeletePublicAccessBlock b # replicate i (GetPublicAccessBlock b))
                   (GetPublicAccessBlock b)) = None"
  shows "fst (checkDeletePublicAccessBlock s d b w) = None \<and>
         calls (snd (checkDeletePublicAccessBlock s d b w))
           = calls w @ DeletePublicAccessBlock b # replicate (Suc maxRetries) (GetPublicAccessBlock b) \<and>
         slept (snd (checkDeletePublicAccessBlock s d b w)) = slept w + maxRetries"
proof -
  define w1 where "w1 = w\<lparr>calls := calls w @ [DeletePublicAccessBlock b]\<rparr>"
  obtain isDeleted e w2 where p: "checkIsPublicAccessBlockDeleted s b w1 = ((isDeleted, e), w2)"
    by (metis surj_pair)
  have c2: "calls w2 = calls w @ [DeletePublicAccessBlock b, GetPublicAccessBlock b]"
    using probe_calls [of s b w1] p by (simp add: w1_def)
  have s2: "slept w2 = slept w"
    using probe_slept [of s b w1] p by (simp add: w1_def)
  have first: "resp_err (s3svc s (calls w1) (GetPublicAccessBlock b)) = None"
    using assms(6) by (auto simp: w1_def dest: spec [of _ 0])
  have de: "\<not> isDeleted" "e = None"
    using probe_unconfirmed [OF first] p by simp_all
  have eq: "checkDeletePublicAccessBlock s d b w = pollPublicAccessBlockDeleted s b isDeleted 0 w2"
    using assms(1-5) p de by (simp add: checkDeletePublicAccessBlock_def invoke_def w1_def)
  have rest: "\<forall>i < maxRetries - 0.
      resp_err (s3svc s (calls w2 @ replicate i (GetPublicAccessBlock b)) (GetPublicAccessBlock b)) = None"
  proof (intro allI impI)
    fix i assume "i < maxRetries - 0"
    then have "Suc i < Suc maxRetries" by simp
    with assms(6) have "resp_err (s3svc s (calls w @ DeletePublicAccessBlock b
                # replicate (Suc i) (GetPublicAccessBlock b)) (GetPublicAccessBlock b)) = None"
      by blast
    then show "resp_err (s3svc s (calls w2 @ replicate i (GetPublicAccessBlock b)) (GetPublicAccessBlock b)) = None"
      by (simp add: c2)
  qed
  show ?thesis
    using poll_unconfirmed [OF de(1) rest] c2 s2 by (simp add: eq)
qed

lemma replicate_snoc_shift:
  "(xs @ [c]) @ replicate j c = xs @ replicate (Suc j) c"
  by (simp add: replicate_app_Cons_same)

lemma retry_trace:
  "\<exists>n. n \<le> maxRetries - retries \<and>
       calls (snd (retryPutBucketPolicy s c err retries w)) = calls w @ replicate n c \<and>
       slept (snd (retryPutBucketPolicy s c err retries w)) = slept w \<and>
       fst (retryPutBucketPolicy s c err retries w)
         = (if n = 0 then err else resp_err (s3svc s (calls w @ replicate (n - 1) c) c)) \<and>
       (0 < n \<longrightarrow> (\<exists>e. err = Some e \<and> isAccessDeniedException e)) \<and>
       (\<forall>i < n - 1. \<exists>e. resp_err (s3svc s (calls w @ replicate i c) c) = Some e
                          \<and> isAccessDeniedException e)"
proof (induction s c err retries w rule: retryPutBucketPolicy.induct)
  case (1 s c err retries w)
  show ?case
  proof (cases "\<exists>e. err = Some e \<and> retries < maxRetries \<and> isAccessDeniedException e")
    case False
    then have "retryPutBucketPolicy s c err retries w = (err, w)"
      by (subst retryPutBucketPolicy.simps) (auto split: option.splits)
    then show ?thesis
      by (intro exI [of _ 0]) simp
  next
    case True
    then obtain e where e: "err = Some e" "retries < maxRetries" "isAccessDeniedException e"
      by blast
    define r where "r = s3svc s (calls w) c"
    define w1 where "w1 = w\<lparr>calls := calls w @ [c]\<rparr>"
    have inv: "invoke s c w = (r, w1)"
      by (simp add: invoke_def r_def w1_def)
    have eq: "retryPutBucketPolicy s c err retries w
                = retryPutBucketPolicy s c (resp_err r) (retries + 1) w1"
      using e inv by (subst retryPutBucketPolicy.simps) simp
    have nn: "\<not> \<not> isAccessDeniedException e" using e(3) by simp
    from "1.IH" [OF e(1) e(2) nn inv [symmetric]]
    obtain n where n: "n \<le> maxRetries - (retries + 1)"
      "calls (snd (retryPutBucketPolicy s c (resp_err r) (retries + 1) w1)) = calls w1 @ replicate n c"
      "slept (snd (retryPutBucketPolicy s c (resp_err r) (retries + 1) w1)) = slept w1"
      "fst (retryPutBucketPolicy s c (resp_err r) (retries + 1) w1)
         = (if n = 0 then resp_err r else resp_err (s3svc s (calls w1 @ replicate (n - 1) c) c))"
      "0 < n \<longrightarrow> (\<exists>e. resp_err r = Some e \<and> isAccessDeniedException e)"
      "\<forall>i < n - 1. \<exists>e. resp_err (s3svc s (calls w1 @ replicate i c) c) = Some e
                          \<and> isAccessDeniedException e"
      by blast
    have c1: "calls w1 = calls w @ [c]" "slept w1 = slept w"
      by (simp_all add: w1_def)
    have bound: "Suc n \<le> maxRetries - retries"
      using n(1) e(2) by arith
    have tr: "calls (snd (retryPutBucketPolicy s c err retries w)) = calls w @ replicate (Suc n) c"
      using n(2) c1 by (simp add: eq replicate_app_Cons_same)
    have sl: "slept (snd (retryPutBucketPolicy s c err retries w)) = slept w"
      using n(3) c1 by (simp add: eq)
    have res: "fst (retryPutBucketPolicy s c err retries w)
                 = resp_err (s3svc s (calls w @ replicate n c) c)"
    proof (cases n)
      case 0
      then show ?thesis using n(4) by (simp add: eq r_def)
    next
      case (Suc k)
      then show ?thesis using n(4) c1 by (simp add: eq replicate_app_Cons_same)
    qed
    have prev: "\<forall>i < n. \<exists>e. resp_err (s3svc s (calls w @ replicate i c) c) = Some e
                          \<and> isAccessDeniedException e"
    proof (intro allI impI)
      fix i assume i: "i < n"
      show "\<exists>e. resp_err (s3svc s (calls w @ replicate i c) c) = Some e \<and> isAccessDeniedException e"
      proof (cases i)
        case 0
        then show ?thesis using n(5) i by (simp add: r_def)
      next
        case (Suc j)
        then have "j < n - 1" using i by arith
        with n(6) have "\<exists>e. resp_err (s3svc s (calls w1 @ replicate j c) c) = Some e
                          \<and> isAccessDeniedException e"
          by blast
        then show ?thesis using Suc c1 by (simp add: replicate_app_Cons_same)
      qed
    qed
    show ?thesis
      using bound tr sl res prev e by (intro exI [of _ "Suc n"]) simp
  qed
qed

lemma policy_apply_trace:
  assumes "Policy d \<noteq> ''''" "renderTemplate s (Policy d) (d\<lparr>BucketName := b\<rparr>) = Inr doc"
  shows "\<exists>n. 1 \<le> n \<and> n \<le> Suc maxRetries \<and>
           calls (snd (putBucketPolicyWithRetries s d b w)) = calls w @ replicate n (PutBucketPolicy b doc) \<and>
           slept (snd (putBucketPolicyWithRetries s d b w)) = slept w \<and>
           fst (putBucketPolicyWithRetries s d b w)
             = resp_err (s3svc s (calls w @ replicate (n - 1) (PutBucketPolicy b doc)) (PutBucketPolicy b doc)) \<and>
           (\<forall>i < n - 1. \<exists>e. resp_err (s3svc s (calls w @ replicate i (PutBucketPolicy b doc))
                                          (PutBucketPolicy b doc)) = Some e
                             \<and> isAccessDeniedException e)"
proof -
  define c where "c = PutBucketPolicy b doc"
  define r where "r = s3svc s (calls w) c"
  define w1 where "w1 = w\<lparr>calls := calls w @ [c]\<rparr>"
  have eq: "putBucketPolicyWithRetries s d b w = retryPutBucketPolicy s c (resp_err r) 0 w1"
    using assms by (simp add: putBucketPolicyWithRetries_def invoke_def Let_def c_def r_def w1_def)
  obtain n where n: "n \<le> maxRetries - 0"
    "calls (snd (retryPutBucketPolicy s c (resp_err r) 0 w1)) = calls w1 @ replicate n c"
    "slept (snd (retryPutBucketPolicy s c (resp_err r) 0 w1)) = slept w1"
    "fst (retryPutBucketPolicy s c (resp_err r) 0 w1)
       = (if n = 0 then resp_err r else resp_err (s3svc s (calls w1 @ replicate (n - 1) c) c))"
    "0 < n \<longrightarrow> (\<exists>e. resp_err r = Some e \<and> isAccessDeniedException e)"
    "\<forall>i < n - 1. \<exists>e. resp_err (s3svc s (calls w1 @ replicate i c) c) = Some e
                        \<and> isAccessDeniedException e"
    using retry_trace [of 0 s c "resp_err r" w1] by blast
  have c1: "calls w1 = calls w @ [c]" "slept w1 = slept w"
    by (simp_all add: w1_def)
  have tr: "calls (snd (putBucketPolicyWithRetries s d b w)) = calls w @ replicate (Suc n) c"
    using n(2) c1 by (simp add: eq replicate_app_Cons_same)
  have sl: "slept (snd (putBucketPolicyWithRetries s d b w)) = slept w"
    using n(3) c1 by (simp add: eq)
  have res: "fst (putBucketPolicyWithRetries s d b w) = resp_err (s3svc s (calls w @ replicate n c) c)"
  proof (cases n)
    case 0
    then show ?thesis using n(4) by (simp add: eq r_def)
  next
    case (Suc k)
    then show ?thesis using n(4) c1 by (simp add: eq replicate_app_Cons_same)
  qed
  have prev: "\<forall>i < n. \<exists>e. resp_err (s3svc s (calls w @ replicate i c) c) = Some e
                        \<and> isAccessDeniedException e"
  proof (intro allI impI)
    fix i assume i: "i < n"
    show "\<exists>e. resp_err (s3svc s (calls w @ replicate i c) c) = Some e \<and> isAccessDeniedException e"
    proof (cases i)
      case 0
      then show ?thesis using n(5) i by (simp add: r_def)
    next
      case (Suc j)
      then have "j < n - 1" using i by arith
      with n(6) have "\<exists>e. resp_err (s3svc s (calls w1 @ replicate j c) c) = Some e
                        \<and> isAccessDeniedException e"
        by blast
      then show ?thesis using Suc c1 by (simp add: replicate_app_Cons_same)
    qed
  qed
  show ?thesis
    using n(1) tr sl res prev unfolding c_def [symmetric]
    by (intro exI [of _ "Suc n"]) simp
qed

lemma policy_apply_no_policy:
  "Policy d = '''' \<Longrightarrow> putBucketPolicyWithRetries s d b w = (None, w)"
  by (simp add: putBucketPolicyWithRetries_def)

lemma policy_apply_render_fails:
  "Policy d \<noteq> '''' \<Longrightarrow> renderTemplate s (Policy d) (d\<lparr>BucketName := b\<rparr>) = Inl e \<Longrightarrow>
   putBucketPolicyWithRetries s d b w = (Some e, w)"
  by (simp add: putBucketPolicyWithRetries_def Let_def)

lemma count_calls_append:
  "calls w' = calls w @ xs \<Longrightarrow>
   count_calls k w' = count_calls k w + length (filter (\<lambda>c. operation_of c = k) xs)"
  by (simp add: count_calls_def)

lemma policy_apply_frame:
  assumes "k \<noteq> OpPutBucketPolicy"
  shows "count_calls k (snd (putBucketPolicyWithRetries s d b w)) = count_calls k w"
proof (cases "Policy d = ''''")
  case True
  then show ?thesis by (simp add: policy_apply_no_policy)
next
  case False
  show ?thesis
  proof (cases "renderTemplate s (Policy d) (d\<lparr>BucketName := b\<rparr>)")
    case (Inl e)
    then show ?thesis using False by (simp add: policy_apply_render_fails)
  next
    case (Inr doc)
    from policy_apply_trace [OF False Inr, of w]
    obtain n where "calls (snd (putBucketPolicyWithRetries s d b w))
                      = calls w @ replicate n (PutBucketPolicy b doc)"
      by blast
    from count_calls_append [OF this, of k] show ?thesis
      using assms by (simp add: filter_replicate)
  qed
qed

lemma encryption_trace:
  "calls (snd (putBucketEncryption s b d w)) = calls w \<or>
   (\<exists>cfg. calls (snd (putBucketEncryption s b d w)) = calls w @ [PutBucketEncryption b cfg])"
  by (simp add: putBucketEncryption_def invoke_def split: sum.splits option.splits)

lemma encryption_frame:
  assumes "k \<noteq> OpPutBucketEncryption"
  shows "count_calls k (snd (putBucketEncryption s b d w)) = count_calls k w"
  using encryption_trace [of s b d w] assms
  by (auto simp: count_calls_def)

section \<open>Describe and Modify\<close>

text \<open>
  Claim C5. For every bucket name and partition, when the location lookup succeeds,
  \<open>Describe\<close> returns bucket details whose ARN is \<open>arn:\<close>, the partition, \<open>:s3:::\<close> and the
  bucket name, and whose FIPS endpoint is \<open>s3-fips.\<close>, the resolved region and
  \<open>.amazonaws.com\<close>; the resolved region is the reported location, or \<open>us-east-1\<close> when
  the location is nil. Tags, encryption and policy are left unpopulated.
\<close>

theorem Describe_derives_arn_and_endpoint:
  assumes "resp_err (s3svc s (calls w) (GetBucketLocation bucketName)) = None"
  shows "\<exists>d. fst (Describe s bucketName partitionId w) = Inr d \<and>
           ARN d = ''arn:'' @ partitionId @ '':s3:::'' @ bucketName \<and>
           Region d = (case resp_out (s3svc s (calls w) (GetBucketLocation bucketName)) of
                         None \<Rightarrow> ''us-east-1'' | Some l \<Rightarrow> l) \<and>
           FIPSEndpoint d = ''s3-fips.'' @ Region d @ ''.amazonaws.com'' \<and>
           Tags d = Map.empty \<and> Encryption d = '''' \<and> Policy d = ''''"
  using assms by (simp add: Describe_def invoke_def buildBucketDetails_def Let_def)

theorem Describe_derives_arn_and_endpoint_witness:
  "resp_err (s3svc (exampleS3Bucket backendGovWest) (calls w0) (GetBucketLocation ''my-bucket'')) = None \<and>
   map_sum id ARN (fst (Describe (exampleS3Bucket backendGovWest) ''my-bucket'' ''aws-us-gov'' w0))
     = Inr ''arn:aws-us-gov:s3:::my-bucket'' \<and>
   map_sum id FIPSEndpoint (fst (Describe (exampleS3Bucket backendGovWest) ''my-bucket'' ''aws-us-gov'' w0))
     = Inr ''s3-fips.us-gov-west-1.amazonaws.com''"
proof -
  have h: "resp_err (s3svc (exampleS3Bucket backendGovWest) (calls w0) (GetBucketLocation ''my-bucket'')) = None"
    by (simp add: exampleS3Bucket_def backendGovWest_def)
  have r: "resp_out (s3svc (exampleS3Bucket backendGovWest) (calls w0) (GetBucketLocation ''my-bucket''))
             = Some ''us-gov-west-1''"
    by (simp add: exampleS3Bucket_def backendGovWest_def)
  from Describe_derives_arn_and_endpoint [OF h, of "''aws-us-gov''"]
  obtain d where d: "fst (Describe (exampleS3Bucket backendGovWest) ''my-bucket'' ''aws-us-gov'' w0) = Inr d"
    "ARN d = ''arn:'' @ ''aws-us-gov'' @ '':s3:::'' @ ''my-bucket''"
    "Region d = (case resp_out (s3svc (exampleS3Bucket backendGovWest) (calls w0)
                     (GetBucketLocation ''my-bucket'')) of None \<Rightarrow> ''us-east-1'' | Some l \<Rightarrow> l)"
    "FIPSEndpoint d = ''s3-fips.'' @ Region d @ ''.amazonaws.com''"
    by blast
  show ?thesis
    using h d r by simp
qed

text \<open>
  Claim C6, as amended. If the location lookup succeeds and reports a nil location,
  \<open>Describe\<close> resolves the region to \<open>us-east-1\<close> and derives the FIPS endpoint from it.
  A location that is not nil is taken as it is reported, the empty string included: the
  code substitutes the default region only for the nil pointer.
\<close>

theorem Describe_nil_location_is_us_east_1:
  assumes "resp_err (s3svc s (calls w) (GetBucketLocation bucketName)) = None"
  shows "(resp_out (s3svc s (calls w) (GetBucketLocation bucketName)) = None \<longrightarrow>
            (\<exists>d. fst (Describe s bucketName partitionId w) = Inr d \<and>
                 Region d = ''us-east-1'' \<and>
                 FIPSEndpoint d = ''s3-fips.us-east-1.amazonaws.com'')) \<and>
         (\<forall>l. resp_out (s3svc s (calls w) (GetBucketLocation bucketName)) = Some l \<longrightarrow>
            (\<exists>d. fst (Describe s bucketName partitionId w) = Inr d \<and>
                 Region d = l \<and>
                 FIPSEndpoint d = ''s3-fips.'' @ l @ ''.amazonaws.com''))"
  using assms by (simp add: Describe_def invoke_def buildBucketDetails_def Let_def)

theorem Describe_nil_location_is_us_east_1_witness:
  "resp_err (s3svc (exampleS3Bucket backendOk) (calls w0) (GetBucketLocation ''my-bucket'')) = None \<and>
   resp_out (s3svc (exampleS3Bucket backendOk) (calls w0) (GetBucketLocation ''my-bucket'')) = None \<and>
   map_sum id Region (fst (Describe (exampleS3Bucket backendOk) ''my-bucket'' ''aws'' w0))
     = Inr ''us-east-1'' \<and>
   resp_err (s3svc (exampleS3Bucket backendGovWest) (calls w0) (GetBucketLocation ''my-bucket'')) = None \<and>
   resp_out (s3svc (exampleS3Bucket backendGovWest) (calls w0) (GetBucketLocation ''my-bucket''))
     = Some ''us-gov-west-1'' \<and>
   map_sum id Region (fst (Describe (exampleS3Bucket backendGovWest) ''my-bucket'' ''aws'' w0))
     = Inr ''us-gov-west-1''"
proof -
  have h1: "resp_err (s3svc (exampleS3Bucket backendOk) (calls w0) (GetBucketLocation ''my-bucket'')) = None"
    and o1: "resp_out (s3svc (exampleS3Bucket backendOk) (calls w0) (GetBucketLocation ''my-bucket'')) = None"
    by (simp_all add: exampleS3Bucket_def backendOk_def)
  have h2: "resp_err (s3svc (exampleS3Bucket backendGovWest) (calls w0) (GetBucketLocation ''my-bucket'')) = None"
    and o2: "resp_out (s3svc (exampleS3Bucket backendGovWest) (calls w0) (GetBucketLocation ''my-bucket''))
               = Some ''us-gov-west-1''"
    by (simp_all add: exampleS3Bucket_def backendGovWest_def)
  from Describe_nil_location_is_us_east_1 [OF h1, of "''aws''"] o1
  have a: "map_sum id Region (fst (Describe (exampleS3Bucket backendOk) ''my-bucket'' ''aws'' w0))
             = Inr ''us-east-1''"
    by auto
  from Describe_nil_location_is_us_east_1 [OF h2, of "''aws''"] o2
  have b: "map_sum id Region (fst (Describe (exampleS3Bucket backendGovWest) ''my-bucket'' ''aws'' w0))
             = Inr ''us-gov-west-1''"
    by auto
  show ?thesis
    using h1 o1 a h2 o2 b by simp
qed

text \<open>
  The claim as stated fails on an empty location: the lookup succeeds, the location is
  a pointer to the empty string, and the region stays empty.
\<close>

theorem Describe_empty_location_counterexample:
  "resp_err (s3svc (exampleS3Bucket backendEmptyLocation) (calls w0) (GetBucketLocation ''my-bucket'')) = None \<and>
   resp_out (s3svc (exampleS3Bucket backendEmptyLocation) (calls w0) (GetBucketLocation ''my-bucket''))
     = Some '''' \<and>
   fst (Describe (exampleS3Bucket backendEmptyLocation) ''my-bucket'' ''aws'' w0)
     = Inr \<lparr> BucketName = ''my-bucket'', Region = '''', ARN = ''arn:aws:s3:::my-bucket'',
             FIPSEndpoint = ''s3-fips..amazonaws.com'', Tags = Map.empty, Encryption = '''',
             Policy = '''', ObjectOwnership = '''' \<rparr>"
  by (simp add: Describe_def invoke_def buildBucketDetails_def Let_def exampleS3Bucket_def
      backendEmptyLocation_def w0_def)

text \<open>
  Claim C9. For every bucket name and every bucket details, \<open>Modify\<close> returns nil and
  issues no backend call: the world after the call is the world before it.
\<close>

theorem Modify_does_nothing:
  "Modify s bucketName bucketDetails w = (None, w)"
  by (simp add: Modify_def)

section \<open>What Create does before the reconciler\<close>

lemma Create_prelude_cases:
  fixes s b d w
  defines "cb \<equiv> buildCreateBucketInput b d"
  defines "pt \<equiv> PutBucketTagging b (Tags d)"
  defines "w2 \<equiv> w\<lparr>calls := calls w @ [cb, pt]\<rparr>"
  shows "(\<exists>e. resp_err (s3svc s (calls w) cb) = Some e \<and>
              Create s b d w = (Inl (flattenAwsError e), w\<lparr>calls := calls w @ [cb]\<rparr>)) \<or>
         (\<exists>e. resp_err (s3svc s (calls w) cb) = None \<and>
              resp_err (s3svc s (calls w @ [cb]) pt) = Some e \<and>
              Create s b d w = (Inl e, w2)) \<or>
         (\<exists>e w3. resp_err (s3svc s (calls w) cb) = None \<and>
              resp_err (s3svc s (calls w @ [cb]) pt) = None \<and>
              putBucketEncryption s b d w2 = (Some e, w3) \<and>
              Create s b d w = (Inl e, w3)) \<or>
         (\<exists>w3. resp_err (s3svc s (calls w) cb) = None \<and>
              resp_err (s3svc s (calls w @ [cb]) pt) = None \<and>
              putBucketEncryption s b d w2 = (None, w3) \<and>
              Create s b d w =
                (case checkDeletePublicAccessBlock s d b w3 of
                   (Some e, w4) \<Rightarrow> (Inl e, w4)
                 | (None, w4) \<Rightarrow>
                     (case putBucketPolicyWithRetries s d b w4 of
                        (Some e, w5) \<Rightarrow> (Inl e, w5)
                      | (None, w5) \<Rightarrow>
                          (Inr (case resp_out (s3svc s (calls w) cb) of
                                  None \<Rightarrow> '''' | Some l \<Rightarrow> l), w5))))"
proof (cases "resp_err (s3svc s (calls w) cb)")
  case (Some e)
  then show ?thesis
    by (simp add: Create_def invoke_def cb_def)
next
  case None
  note cr = None
  show ?thesis
  proof (cases "resp_err (s3svc s (calls w @ [cb]) pt)")
    case (Some e)
    then show ?thesis using cr
      by (simp add: Create_def invoke_def cb_def pt_def w2_def)
  next
    case None
    note tg = None
    obtain ee w3 where enc: "putBucketEncryption s b d w2 = (ee, w3)"
      by (metis surj_pair)
    show ?thesis
    proof (cases ee)
      case (Some e)
      then show ?thesis using cr tg enc
        by (simp add: Create_def invoke_def cb_def pt_def w2_def)
    next
      case None
      then show ?thesis using cr tg enc
        unfolding cb_def pt_def w2_def by (simp add: Create_def invoke_def)
    qed
  qed
qed

lemma reconciler_matched_calls:
  assumes "Policy d \<noteq> ''''" "unmarshalPolicy s (Policy d) = Inr p" "length (Statement p) \<le> 1"
    "list_ex matchesPublicAccessPolicy (Statement p)"
  shows "\<exists>n. n \<le> Suc maxRetries \<and>
           calls (snd (checkDeletePublicAccessBlock s d b w))
             = calls w @ DeletePublicAccessBlock b # replicate n (GetPublicAccessBlock b)"
proof (cases "resp_err (s3svc s (calls w) (DeletePublicAccessBlock b))")
  case (Some e)
  from reconciler_delete_fails [OF assms Some] show ?thesis
    by (intro exI [of _ 0]) simp
next
  case None
  from reconciler_delete_ok [OF assms None] show ?thesis
    by blast
qed

lemma reconciler_matched_count:
  assumes "Policy d \<noteq> ''''" "unmarshalPolicy s (Policy d) = Inr p" "length (Statement p) \<le> 1"
    "list_ex matchesPublicAccessPolicy (Statement p)"
  shows "count_calls OpDeletePublicAccessBlock (snd (checkDeletePublicAccessBlock s d b w))
           = count_calls OpDeletePublicAccessBlock w + 1"
proof -
  from reconciler_matched_calls [OF assms, of b w]
  obtain n where "calls (snd (checkDeletePublicAccessBlock s d b w))
             = calls w @ DeletePublicAccessBlock b # replicate n (GetPublicAccessBlock b)"
    by blast
  from count_calls_append [OF this, of OpDeletePublicAccessBlock] show ?thesis
    by (simp add: filter_replicate)
qed

lemma reconciler_frame:
  assumes "k \<noteq> OpDeletePublicAccessBlock" "k \<noteq> OpGetPublicAccessBlock"
  shows "count_calls k (snd (checkDeletePublicAccessBlock s d b w)) = count_calls k w"
proof (cases "Policy d \<noteq> '''' \<and> (\<exists>p. unmarshalPolicy s (Policy d) = Inr p \<and> length (Statement p) \<le> 1
                \<and> list_ex matchesPublicAccessPolicy (Statement p))")
  case True
  then obtain p where p: "Policy d \<noteq> ''''" "unmarshalPolicy s (Policy d) = Inr p"
    "length (Statement p) \<le> 1" "list_ex matchesPublicAccessPolicy (Statement p)"
    by blast
  from reconciler_matched_calls [OF p, of b w]
  obtain n where "calls (snd (checkDeletePublicAccessBlock s d b w))
             = calls w @ DeletePublicAccessBlock b # replicate n (GetPublicAccessBlock b)"
    by blast
  from count_calls_append [OF this, of k] show ?thesis
    using assms by (simp add: filter_replicate)
next
  case False
  then have "snd (checkDeletePublicAccessBlock s d b w) = w"
    by (auto simp: checkDeletePublicAccessBlock_def split: sum.splits)
  then show ?thesis by simp
qed

lemma Create_count_after_prelude:
  fixes s b d w
  defines "cb \<equiv> buildCreateBucketInput b d"
  defines "pt \<equiv> PutBucketTagging b (Tags d)"
  defines "w2 \<equiv> w\<lparr>calls := calls w @ [cb, pt]\<rparr>"
  assumes cr: "resp_err (s3svc s (calls w) cb) = None"
    and tg: "resp_err (s3svc s (calls w @ [cb]) pt) = None"
    and en: "fst (putBucketEncryption s b d w2) = None"
  shows "count_calls OpDeletePublicAccessBlock (snd (Create s b d w))
           = count_calls OpDeletePublicAccessBlock
               (snd (checkDeletePublicAccessBlock s d b (snd (putBucketEncryption s b d w2))))"
proof -
  obtain w3 where enc: "putBucketEncryption s b d w2 = (None, w3)"
    using en by (metis fst_conv surj_pair)
  have cr': "resp_err (s3svc s (calls w) (buildCreateBucketInput b d)) \<noteq> Some e" for e
    using cr by (simp add: cb_def)
  have eq: "Create s b d w =
                (case checkDeletePublicAccessBlock s d b w3 of
                   (Some e, w4) \<Rightarrow> (Inl e, w4)
                 | (None, w4) \<Rightarrow>
                     (case putBucketPolicyWithRetries s d b w4 of
                        (Some e, w5) \<Rightarrow> (Inl e, w5)
                      | (None, w5) \<Rightarrow>
                          (Inr (case resp_out (s3svc s (calls w) (buildCreateBucketInput b d)) of
                                  None \<Rightarrow> '''' | Some l \<Rightarrow> l), w5)))"
    using Create_prelude_cases [of s w b d] cr tg enc
    unfolding cb_def pt_def w2_def by auto
  obtain r4 w4 where rec: "checkDeletePublicAccessBlock s d b w3 = (r4, w4)"
    by (metis surj_pair)
  have "count_calls OpDeletePublicAccessBlock (snd (Create s b d w))
          = count_calls OpDeletePublicAccessBlock w4"
  proof (cases r4)
    case (Some e)
    then show ?thesis using rec by (simp add: eq)
  next
    case None
    have "snd (Create s b d w) = snd (putBucketPolicyWithRetries s d b w4)"
      using rec None by (simp add: eq split: prod.splits option.splits)
    then show ?thesis
      by (simp add: policy_apply_frame)
  qed
  then show ?thesis
    using rec enc by simp
qed

section \<open>Policies with more than one statement\<close>

text \<open>
  Claim C1, as amended. For every bucket details whose policy parses as a document with
  more than one statement, \<open>Create\<close> fails: it returns an error, and no
  \<open>DeletePublicAccessBlock\<close>, \<open>GetPublicAccessBlock\<close> or \<open>PutBucketPolicy\<close> call is issued.
  The statements are counted in the fourth step of \<open>Create\<close>, so the calls of the
  earlier steps have been issued by then: \<open>CreateBucket\<close> always, then
  \<open>PutBucketTagging\<close> and \<open>PutBucketEncryption\<close> as far as those steps are reached.
\<close>

theorem Create_rejects_many_statements:
  assumes "Policy d \<noteq> ''''"
    and "unmarshalPolicy s (Policy d) = Inr p"
    and "length (Statement p) > 1"
  shows "(\<exists>e. fst (Create s b d w) = Inl e) \<and>
         (calls (snd (Create s b d w)) = calls w @ [CreateBucket b (ObjectOwnership d)] \<or>
          calls (snd (Create s b d w))
            = calls w @ [CreateBucket b (ObjectOwnership d), PutBucketTagging b (Tags d)] \<or>
          (\<exists>cfg. calls (snd (Create s b d w))
            = calls w @ [CreateBucket b (ObjectOwnership d), PutBucketTagging b (Tags d),
                         PutBucketEncryption b cfg])) \<and>
         count_calls OpDeletePublicAccessBlock (snd (Create s b d w))
           = count_calls OpDeletePublicAccessBlock w \<and>
         count_calls OpGetPublicAccessBlock (snd (Create s b d w))
           = count_calls OpGetPublicAccessBlock w \<and>
         count_calls OpPutBucketPolicy (snd (Create s b d w))
           = count_calls OpPutBucketPolicy w"
proof -
  define cb where "cb = CreateBucket b (ObjectOwnership d)"
  define pt where "pt = PutBucketTagging b (Tags d)"
  define w2 where "w2 = w\<lparr>calls := calls w @ [cb, pt]\<rparr>"
  have enc: "calls w3 = calls w @ [cb, pt] \<or> (\<exists>cfg. calls w3 = calls w @ [cb, pt, PutBucketEncryption b cfg])"
    if "putBucketEncryption s b d w2 = (r, w3)" for r w3
    using encryption_trace [of s b d w2] that by (auto simp: w2_def)
  have rej: "checkDeletePublicAccessBlock s d b w3 =
      (Some (GoError (''expected 1 policy statement, got '' @ formatInt (length (Statement p)))), w3)"
    for w3
    using reconciler_too_many [OF assms] .
  have main: "(\<exists>e. fst (Create s b d w) = Inl e) \<and>
         (calls (snd (Create s b d w)) = calls w @ [cb] \<or>
          calls (snd (Create s b d w)) = calls w @ [cb, pt] \<or>
          (\<exists>cfg. calls (snd (Create s b d w)) = calls w @ [cb, pt, PutBucketEncryption b cfg]))"
    using Create_prelude_cases [of s w b d] enc
    unfolding buildCreateBucketInput_def cb_def [symmetric] pt_def [symmetric] w2_def [symmetric]
    by (elim disjE exE conjE) (auto simp: rej w2_def)
  then obtain xs where xs: "calls (snd (Create s b d w)) = calls w @ xs"
    "xs = [cb] \<or> xs = [cb, pt] \<or> (\<exists>cfg. xs = [cb, pt, PutBucketEncryption b cfg])"
    by auto
  have counts: "count_calls k (snd (Create s b d w)) = count_calls k w"
    if "k \<noteq> OpCreateBucket" "k \<noteq> OpPutBucketTagging" "k \<noteq> OpPutBucketEncryption" for k
    using count_calls_append [OF xs(1), of k] xs(2) that by (auto simp: cb_def pt_def)
  show ?thesis
    using main counts unfolding cb_def pt_def by simp
qed

theorem Create_rejects_many_statements_witness:
  "Policy (exampleDetails twoStatementText) \<noteq> '''' \<and>
   unmarshalPolicy (exampleS3Bucket backendOk) (Policy (exampleDetails twoStatementText))
     = Inr twoStatementPolicy \<and>
   length (Statement twoStatementPolicy) > 1 \<and>
   count_calls OpDeletePublicAccessBlock
     (snd (Create (exampleS3Bucket backendOk) ''my-bucket'' (exampleDetails twoStatementText) w0)) = 0 \<and>
   count_calls OpPutBucketPolicy
     (snd (Create (exampleS3Bucket backendOk) ''my-bucket'' (exampleDetails twoStatementText) w0)) = 0"
proof -
  have h1: "Policy (exampleDetails twoStatementText) \<noteq> ''''"
    by (simp add: exampleDetails_def twoStatementText_def)
  have h2: "unmarshalPolicy (exampleS3Bucket backendOk) (Policy (exampleDetails twoStatementText))
              = Inr twoStatementPolicy"
    by (simp add: exampleS3Bucket_def exampleDetails_def exampleUnmarshalPolicy_def
        twoStatementText_def publicReadText_def putObjectText_def)
  have h3: "length (Statement twoStatementPolicy) > 1"
    by (simp add: twoStatementPolicy_def)
  have z: "count_calls k w0 = 0" for k
    by (simp add: count_calls_def w0_def)
  from Create_rejects_many_statements [OF h1 h2 h3, of "''my-bucket''" w0]
  show ?thesis
    using h1 h2 h3 by (simp add: z)
qed

text \<open>
  The claim as stated fails: on a backend where every call succeeds, \<open>Create\<close> with a
  policy of two statements returns the error only after it has created and tagged the
  bucket.
\<close>

theorem Create_two_statements_counterexample:
  "unmarshalPolicy (exampleS3Bucket backendOk) (Policy (exampleDetails twoStatementText))
     = Inr twoStatementPolicy \<and>
   length (Statement twoStatementPolicy) = 2 \<and>
   fst (Create (exampleS3Bucket backendOk) ''my-bucket'' (exampleDetails twoStatementText) w0)
     = Inl (GoError ''expected 1 policy statement, got 2'') \<and>
   map operation_of
     (calls (snd (Create (exampleS3Bucket backendOk) ''my-bucket'' (exampleDetails twoStatementText) w0)))
     = [OpCreateBucket, OpPutBucketTagging]"
  by (simp add: Create_def buildCreateBucketInput_def putBucketEncryption_def
      checkDeletePublicAccessBlock_def invoke_def formatInt.simps
      exampleS3Bucket_def exampleDetails_def backendOk_def exampleUnmarshalPolicy_def
      twoStatementText_def publicReadText_def putObjectText_def twoStatementPolicy_def w0_def)

section \<open>The retries of the policy call\<close>

text \<open>
  Claim C2, as amended. For every non-empty policy that renders successfully, the
  policy applier issues the \<open>PutBucketPolicy\<close> call at most 11 times in total: the first
  call and at most 10 retries, all with the same input. Every call but the last failed
  with an error classified as \<open>AccessDenied\<close>, so the call is issued again only after
  such a failure, and what is returned is the error of the last call: nil when it
  succeeded, the error of another class at once, and the last \<open>AccessDenied\<close> error when
  the retries are used up.
\<close>

theorem putBucketPolicyWithRetries_bounded:
  assumes "Policy d \<noteq> ''''"
    and "renderTemplate s (Policy d) (d\<lparr>BucketName := b\<rparr>) = Inr doc"
  shows "\<exists>n. 1 \<le> n \<and> n \<le> 11 \<and>
           calls (snd (putBucketPolicyWithRetries s d b w))
             = calls w @ replicate n (PutBucketPolicy b doc) \<and>
           (\<forall>i < n - 1. \<exists>e. resp_err (s3svc s (calls w @ replicate i (PutBucketPolicy b doc))
                                          (PutBucketPolicy b doc)) = Some e
                             \<and> isAccessDeniedException e) \<and>
           fst (putBucketPolicyWithRetries s d b w)
             = resp_err (s3svc s (calls w @ replicate (n - 1) (PutBucketPolicy b doc))
                           (PutBucketPolicy b doc))"
  using policy_apply_trace [OF assms, of w] unfolding maxRetries_def by auto

theorem putBucketPolicyWithRetries_bounded_witness:
  "Policy (exampleDetails putObjectText) \<noteq> '''' \<and>
   renderTemplate (exampleS3Bucket backendDenied) (Policy (exampleDetails putObjectText))
     ((exampleDetails putObjectText)\<lparr>BucketName := ''my-bucket''\<rparr>) = Inr putObjectText \<and>
   fst (putBucketPolicyWithRetries (exampleS3Bucket backendDenied) (exampleDetails putObjectText)
          ''my-bucket'' w0) = Some (AwsError ''AccessDenied'' ''Access Denied'')"
proof -
  have h1: "Policy (exampleDetails putObjectText) \<noteq> ''''"
    by (simp add: exampleDetails_def putObjectText_def)
  have h2: "renderTemplate (exampleS3Bucket backendDenied) (Policy (exampleDetails putObjectText))
              ((exampleDetails putObjectText)\<lparr>BucketName := ''my-bucket''\<rparr>) = Inr putObjectText"
    by (simp add: exampleDetails_def exampleS3Bucket_def)
  have r: "\<And>h. resp_err (s3svc (exampleS3Bucket backendDenied) h (PutBucketPolicy ''my-bucket'' putObjectText))
             = Some (AwsError ''AccessDenied'' ''Access Denied'')"
    by (simp add: exampleS3Bucket_def backendDenied_def)
  from putBucketPolicyWithRetries_bounded [OF h1 h2, of w0]
  have "fst (putBucketPolicyWithRetries (exampleS3Bucket backendDenied) (exampleDetails putObjectText)
          ''my-bucket'' w0) = Some (AwsError ''AccessDenied'' ''Access Denied'')"
    by (auto simp: r)
  then show ?thesis using h1 h2 by simp
qed

text \<open>
  The claim as stated fails on the bound: on a backend that denies every policy call,
  the call is issued 11 times.
\<close>

theorem putBucketPolicyWithRetries_eleven_calls_counterexample:
  "Policy (exampleDetails putObjectText) \<noteq> '''' \<and>
   renderTemplate (exampleS3Bucket backendDenied) (Policy (exampleDetails putObjectText))
     ((exampleDetails putObjectText)\<lparr>BucketName := ''my-bucket''\<rparr>) = Inr putObjectText \<and>
   count_calls OpPutBucketPolicy w0 = 0 \<and>
   count_calls OpPutBucketPolicy
     (snd (putBucketPolicyWithRetries (exampleS3Bucket backendDenied) (exampleDetails putObjectText)
             ''my-bucket'' w0)) = 11"
  by (simp add: putBucketPolicyWithRetries_def retryPutBucketPolicy.simps invoke_def Let_def
      exampleS3Bucket_def exampleDetails_def backendDenied_def putObjectText_def w0_def
      maxRetries_def isAccessDeniedException_def count_calls_def)

section \<open>The confirmation poll of the reconciler\<close>

text \<open>
  Claim C3, as amended. After the deletion of the public access block succeeds, the
  confirmation poll calls the probe at most 11 times: a first probe and at most 10
  retries. A fixed sleep of one second precedes each retry, so \<open>n\<close> probes take \<open>n - 1\<close>
  seconds of sleep. If all 11 probes answer without an error, that is, not yet
  confirmed, the procedure still terminates and returns nil, after 10 seconds of sleep.
\<close>

theorem checkDeletePublicAccessBlock_poll_bounded:
  assumes "Policy d \<noteq> ''''"
    and "unmarshalPolicy s (Policy d) = Inr p"
    and "Statement p = [st]"
    and "matchesPublicAccessPolicy st"
    and "resp_err (s3svc s (calls w) (DeletePublicAccessBlock b)) = None"
  shows "(\<exists>n. 1 \<le> n \<and> n \<le> 11 \<and>
            calls (snd (checkDeletePublicAccessBlock s d b w))
              = calls w @ DeletePublicAccessBlock b # replicate n (GetPublicAccessBlock b) \<and>
            slept (snd (checkDeletePublicAccessBlock s d b w)) = slept w + (n - 1)) \<and>
         ((\<forall>i < 11. resp_err (s3svc s (calls w @ DeletePublicAccessBlock b
                                          # replicate i (GetPublicAccessBlock b))
                                 (GetPublicAccessBlock b)) = None) \<longrightarrow>
            fst (checkDeletePublicAccessBlock s d b w) = None \<and>
            calls (snd (checkDeletePublicAccessBlock s d b w))
              = calls w @ DeletePublicAccessBlock b # replicate 11 (GetPublicAccessBlock b) \<and>
            slept (snd (checkDeletePublicAccessBlock s d b w)) = slept w + 10)"
proof -
  have len: "length (Statement p) \<le> 1" and ex: "list_ex matchesPublicAccessPolicy (Statement p)"
    using assms(3,4) by simp_all
  have eleven: "Suc maxRetries = 11" by (simp add: maxRetries_def)
  have first: "\<exists>n. 1 \<le> n \<and> n \<le> 11 \<and>
            calls (snd (checkDeletePublicAccessBlock s d b w))
              = calls w @ DeletePublicAccessBlock b # replicate n (GetPublicAccessBlock b) \<and>
            slept (snd (checkDeletePublicAccessBlock s d b w)) = slept w + (n - 1)"
    using reconciler_delete_ok [OF assms(1,2) len ex assms(5)] unfolding eleven .
  have second: "fst (checkDeletePublicAccessBlock s d b w) = None \<and>
            calls (snd (checkDeletePublicAccessBlock s d b w))
              = calls w @ DeletePublicAccessBlock b # replicate 11 (GetPublicAccessBlock b) \<and>
            slept (snd (checkDeletePublicAccessBlock s d b w)) = slept w + 10"
    if "\<forall>i < 11. resp_err (s3svc s (calls w @ DeletePublicAccessBlock b
                                          # replicate i (GetPublicAccessBlock b))
                                 (GetPublicAccessBlock b)) = None"
    using reconciler_all_unconfirmed [OF assms(1,2) len ex assms(5)] that
    unfolding eleven by (simp add: maxRetries_def)
  show ?thesis
    using first second by blast
qed

theorem checkDeletePublicAccessBlock_poll_bounded_witness:
  "Policy (exampleDetails publicReadText) \<noteq> '''' \<and>
   unmarshalPolicy (exampleS3Bucket backendOk) (Policy (exampleDetails publicReadText))
     = Inr publicReadPolicy \<and>
   Statement publicReadPolicy = [hd (Statement publicReadPolicy)] \<and>
   matchesPublicAccessPolicy (hd (Statement publicReadPolicy)) \<and>
   resp_err (s3svc (exampleS3Bucket backendOk) (calls w0) (DeletePublicAccessBlock ''my-bucket'')) = None \<and>
   fst (checkDeletePublicAccessBlock (exampleS3Bucket backendOk) (exampleDetails publicReadText)
          ''my-bucket'' w0) = None \<and>
   slept (snd (checkDeletePublicAccessBlock (exampleS3Bucket backendOk) (exampleDetails publicReadText)
          ''my-bucket'' w0)) = 10"
proof -
  have h1: "Policy (exampleDetails publicReadText) \<noteq> ''''"
    by (simp add: exampleDetails_def publicReadText_def)
  have h2: "unmarshalPolicy (exampleS3Bucket backendOk) (Policy (exampleDetails publicReadText))
              = Inr publicReadPolicy"
    by (simp add: exampleS3Bucket_def exampleDetails_def exampleUnmarshalPolicy_def)
  have h3: "Statement publicReadPolicy = [hd (Statement publicReadPolicy)]"
    by (simp add: publicReadPolicy_def)
  have h4: "matchesPublicAccessPolicy (hd (Statement publicReadPolicy))"
    by (simp add: publicReadPolicy_def matchesPublicAccessPolicy_def publicAccessPolicy_def)
  have h5: "resp_err (s3svc (exampleS3Bucket backendOk) (calls w0) (DeletePublicAccessBlock ''my-bucket'')) = None"
    by (simp add: exampleS3Bucket_def backendOk_def)
  have all: "\<forall>i < 11. resp_err (s3svc (exampleS3Bucket backendOk)
                 (calls w0 @ DeletePublicAccessBlock ''my-bucket''
                    # replicate i (GetPublicAccessBlock ''my-bucket''))
                 (GetPublicAccessBlock ''my-bucket'')) = None"
    by (simp add: exampleS3Bucket_def backendOk_def)
  from checkDeletePublicAccessBlock_poll_bounded [OF h1 h2 h3 h4 h5] all
  have "fst (checkDeletePublicAccessBlock (exampleS3Bucket backendOk) (exampleDetails publicReadText)
          ''my-bucket'' w0) = None \<and>
        slept (snd (checkDeletePublicAccessBlock (exampleS3Bucket backendOk) (exampleDetails publicReadText)
          ''my-bucket'' w0)) = slept w0 + 10"
    by blast
  then show ?thesis
    using h1 h2 h3 h4 h5 by (simp add: w0_def)
qed

text \<open>
  The claim as stated fails on the bound: on a backend where the access block is never
  seen deleted, the probe is called 11 times.
\<close>

theorem checkDeletePublicAccessBlock_eleven_probes_counterexample:
  "resp_err (s3svc (exampleS3Bucket backendOk) (calls w0) (DeletePublicAccessBlock ''my-bucket'')) = None \<and>
   count_calls OpGetPublicAccessBlock
     (snd (checkDeletePublicAccessBlock (exampleS3Bucket backendOk) (exampleDetails publicReadText)
             ''my-bucket'' w0)) = 11"
  by (simp add: checkDeletePublicAccessBlock_def pollPublicAccessBlockDeleted.simps
      checkIsPublicAccessBlockDeleted_def invoke_def sleep_def
      exampleS3Bucket_def exampleDetails_def backendOk_def exampleUnmarshalPolicy_def
      publicReadText_def publicReadPolicy_def matchesPublicAccessPolicy_def publicAccessPolicy_def
      w0_def maxRetries_def count_calls_def)

section \<open>The public-read match\<close>

text \<open>
  Claim C7, as amended. For every \<open>Create\<close> call whose policy parses to a document
  with a single statement and whose earlier steps succeed (the bucket creation, the
  tagging, and the encryption step): if the statement has the effect \<open>Allow\<close>, the
  principal \<open>*\<close> and the action list \<open>["s3:GetObject"]\<close>, exactly one
  \<open>DeletePublicAccessBlock\<close> call is issued; if the statement differs in any of the three
  fields, no such call is issued and the reconciler returns success. The reconciler
  itself, run in any world \<open>w'\<close>, issues the one call or none in the same way.
\<close>

theorem Create_deletes_public_access_block_once:
  assumes "Policy d \<noteq> ''''"
    and "unmarshalPolicy s (Policy d) = Inr p"
    and "Statement p = [st]"
    and "resp_err (s3svc s (calls w) (CreateBucket b (ObjectOwnership d))) = None"
    and "resp_err (s3svc s (calls w @ [CreateBucket b (ObjectOwnership d)])
                     (PutBucketTagging b (Tags d))) = None"
    and "fst (putBucketEncryption s b d
                (w\<lparr>calls := calls w @ [CreateBucket b (ObjectOwnership d),
                                        PutBucketTagging b (Tags d)]\<rparr>)) = None"
  shows "(Effect st = ''Allow'' \<and> Principal st = ''*'' \<and> Action st = [''s3:GetObject''] \<longrightarrow>
            count_calls OpDeletePublicAccessBlock (snd (Create s b d w))
              = count_calls OpDeletePublicAccessBlock w + 1 \<and>
            count_calls OpDeletePublicAccessBlock (snd (checkDeletePublicAccessBlock s d b w'))
              = count_calls OpDeletePublicAccessBlock w' + 1) \<and>
         (\<not> (Effect st = ''Allow'' \<and> Principal st = ''*'' \<and> Action st = [''s3:GetObject'']) \<longrightarrow>
            count_calls OpDeletePublicAccessBlock (snd (Create s b d w))
              = count_calls OpDeletePublicAccessBlock w \<and>
            checkDeletePublicAccessBlock s d b w' = (None, w'))"
proof -
  define w2 where "w2 = w\<lparr>calls := calls w @ [CreateBucket b (ObjectOwnership d),
                                        PutBucketTagging b (Tags d)]\<rparr>"
  define w3 where "w3 = snd (putBucketEncryption s b d w2)"
  have len: "length (Statement p) \<le> 1"
    using assms(3) by simp
  have m: "matchesPublicAccessPolicy st
             = (Effect st = ''Allow'' \<and> Principal st = ''*'' \<and> Action st = [''s3:GetObject''])"
    by (simp add: matchesPublicAccessPolicy_def publicAccessPolicy_def)
  have c2: "count_calls OpDeletePublicAccessBlock w2 = count_calls OpDeletePublicAccessBlock w"
    by (simp add: count_calls_def w2_def)
  have c3: "count_calls OpDeletePublicAccessBlock w3 = count_calls OpDeletePublicAccessBlock w"
    using encryption_frame [of OpDeletePublicAccessBlock s b d w2] c2 by (simp add: w3_def)
  have cr: "count_calls OpDeletePublicAccessBlock (snd (Create s b d w))
              = count_calls OpDeletePublicAccessBlock (snd (checkDeletePublicAccessBlock s d b w3))"
    using Create_count_after_prelude [of s w b d] assms(4,5,6)
    by (simp add: buildCreateBucketInput_def w2_def w3_def)
  have yes: "count_calls OpDeletePublicAccessBlock (snd (checkDeletePublicAccessBlock s d b v))
               = count_calls OpDeletePublicAccessBlock v + 1"
    if "matchesPublicAccessPolicy st" for v
    using reconciler_matched_count [OF assms(1,2) len, of b v] that assms(3) by simp
  have no: "checkDeletePublicAccessBlock s d b v = (None, v)"
    if "\<not> matchesPublicAccessPolicy st" for v
    using reconciler_unmatched [OF assms(1,2) len, of b v] that assms(3) by simp
  show ?thesis
    unfolding m [symmetric] using yes no cr c3 by simp
qed

theorem Create_deletes_public_access_block_once_witness:
  "Policy (exampleDetails publicReadText) \<noteq> '''' \<and>
   unmarshalPolicy (exampleS3Bucket backendOk) (Policy (exampleDetails publicReadText))
     = Inr publicReadPolicy \<and>
   Statement publicReadPolicy = [hd (Statement publicReadPolicy)] \<and>
   Effect (hd (Statement publicReadPolicy)) = ''Allow'' \<and>
   Principal (hd (Statement publicReadPolicy)) = ''*'' \<and>
   Action (hd (Statement publicReadPolicy)) = [''s3:GetObject''] \<and>
   count_calls OpDeletePublicAccessBlock
     (snd (Create (exampleS3Bucket backendOk) ''my-bucket'' (exampleDetails publicReadText) w0)) = 1 \<and>
   Policy (exampleDetails putObjectText) \<noteq> '''' \<and>
   unmarshalPolicy (exampleS3Bucket backendOk) (Policy (exampleDetails putObjectText))
     = Inr putObjectPolicy \<and>
   Statement putObjectPolicy = [hd (Statement putObjectPolicy)] \<and>
   Action (hd (Statement putObjectPolicy)) = [''s3:PutObject''] \<and>
   count_calls OpDeletePublicAccessBlock
     (snd (Create (exampleS3Bucket backendOk) ''my-bucket'' (exampleDetails putObjectText) w0)) = 0 \<and>
   checkDeletePublicAccessBlock (exampleS3Bucket backendOk) (exampleDetails putObjectText)
     ''my-bucket'' w0 = (None, w0)"
proof -
  have z: "count_calls OpDeletePublicAccessBlock w0 = 0"
    by (simp add: count_calls_def w0_def)
  have cr: "resp_err (s3svc (exampleS3Bucket backendOk) (calls w0)
                (CreateBucket ''my-bucket'' (ObjectOwnership (exampleDetails t)))) = None" for t
    by (simp add: exampleS3Bucket_def backendOk_def)
  have tg: "resp_err (s3svc (exampleS3Bucket backendOk)
                (calls w0 @ [CreateBucket ''my-bucket'' (ObjectOwnership (exampleDetails t))])
                (PutBucketTagging ''my-bucket'' (Tags (exampleDetails t)))) = None" for t
    by (simp add: exampleS3Bucket_def backendOk_def)
  have en: "fst (putBucketEncryption (exampleS3Bucket backendOk) ''my-bucket'' (exampleDetails t)
                (w0\<lparr>calls := calls w0 @ [CreateBucket ''my-bucket'' (ObjectOwnership (exampleDetails t)),
                                        PutBucketTagging ''my-bucket'' (Tags (exampleDetails t))]\<rparr>)) = None"
    for t
    by (simp add: putBucketEncryption_def exampleDetails_def)
  have a1: "Policy (exampleDetails publicReadText) \<noteq> ''''"
    by (simp add: exampleDetails_def publicReadText_def)
  have a2: "unmarshalPolicy (exampleS3Bucket backendOk) (Policy (exampleDetails publicReadText))
              = Inr publicReadPolicy"
    by (simp add: exampleS3Bucket_def exampleDetails_def exampleUnmarshalPolicy_def)
  have a3: "Statement publicReadPolicy = [hd (Statement publicReadPolicy)]"
    by (simp add: publicReadPolicy_def)
  have a4: "Effect (hd (Statement publicReadPolicy)) = ''Allow'' \<and>
            Principal (hd (Statement publicReadPolicy)) = ''*'' \<and>
            Action (hd (Statement publicReadPolicy)) = [''s3:GetObject'']"
    by (simp add: publicReadPolicy_def)
  have b1: "Policy (exampleDetails putObjectText) \<noteq> ''''"
    by (simp add: exampleDetails_def putObjectText_def)
  have b2: "unmarshalPolicy (exampleS3Bucket backendOk) (Policy (exampleDetails putObjectText))
              = Inr putObjectPolicy"
    by (simp add: exampleS3Bucket_def exampleDetails_def exampleUnmarshalPolicy_def
        putObjectText_def publicReadText_def)
  have b3: "Statement putObjectPolicy = [hd (Statement putObjectPolicy)]"
    by (simp add: putObjectPolicy_def)
  have b4: "Action (hd (Statement putObjectPolicy)) = [''s3:PutObject'']"
    by (simp add: putObjectPolicy_def)
  from Create_deletes_public_access_block_once [OF a1 a2 a3 cr tg en, of w0] a4
  have one: "count_calls OpDeletePublicAccessBlock
     (snd (Create (exampleS3Bucket backendOk) ''my-bucket'' (exampleDetails publicReadText) w0)) = 1"
    by (simp add: z)
  from Create_deletes_public_access_block_once [OF b1 b2 b3 cr tg en, of w0] b4
  have none: "count_calls OpDeletePublicAccessBlock
     (snd (Create (exampleS3Bucket backendOk) ''my-bucket'' (exampleDetails putObjectText) w0)) = 0 \<and>
     checkDeletePublicAccessBlock (exampleS3Bucket backendOk) (exampleDetails putObjectText)
       ''my-bucket'' w0 = (None, w0)"
    by (simp add: z)
  show ?thesis
    using a1 a2 a3 a4 b1 b2 b3 b4 one none by simp
qed

text \<open>
  The claim as stated, for every \<open>Create\<close> call, fails when an earlier step fails: the
  policy is the public-read one, the bucket creation is refused, and \<open>Create\<close> returns
  before the reconciler runs, with no deletion call issued.
\<close>

theorem Create_failed_creation_counterexample:
  "Policy (exampleDetails publicReadText) \<noteq> '''' \<and>
   unmarshalPolicy (exampleS3Bucket backendCreateFails) (Policy (exampleDetails publicReadText))
     = Inr publicReadPolicy \<and>
   Statement publicReadPolicy
     = [\<lparr> Effect = ''Allow'', Principal = ''*'', Action = [''s3:GetObject''],
          Resource = [''arn:aws:s3:::my-bucket/*''] \<rparr>] \<and>
   fst (Create (exampleS3Bucket backendCreateFails) ''my-bucket'' (exampleDetails publicReadText) w0)
     = Inl (GoError ''BucketAlreadyExists: the bucket name is taken'') \<and>
   count_calls OpDeletePublicAccessBlock
     (snd (Create (exampleS3Bucket backendCreateFails) ''my-bucket'' (exampleDetails publicReadText) w0))
     = 0"
  by (simp add: Create_def buildCreateBucketInput_def invoke_def flattenAwsError_def
      exampleS3Bucket_def exampleDetails_def backendCreateFails_def exampleUnmarshalPolicy_def
      publicReadPolicy_def publicReadText_def w0_def count_calls_def)

text \<open>
  Claim C10. The public-read match of the reconciler ignores the field \<open>Resource\<close>: for
  every single-statement policy with the effect \<open>Allow\<close>, the principal \<open>*\<close> and the
  action list \<open>["s3:GetObject"]\<close>, whatever its resources, the reconciler issues the
  \<open>DeletePublicAccessBlock\<close> call, once, before anything else; and for a policy with no
  statement it issues no call and returns success.
\<close>

theorem public_read_match_ignores_Resource:
  assumes "Policy d \<noteq> ''''"
    and "unmarshalPolicy s (Policy d) = Inr p"
  shows "(Statement p = [\<lparr> Effect = ''Allow'', Principal = ''*'', Action = [''s3:GetObject''],
                            Resource = resources \<rparr>] \<longrightarrow>
            count_calls OpDeletePublicAccessBlock (snd (checkDeletePublicAccessBlock s d b w))
              = count_calls OpDeletePublicAccessBlock w + 1 \<and>
            (\<exists>n. calls (snd (checkDeletePublicAccessBlock s d b w))
                   = calls w @ DeletePublicAccessBlock b # replicate n (GetPublicAccessBlock b))) \<and>
         (Statement p = [] \<longrightarrow> checkDeletePublicAccessBlock s d b w = (None, w))"
proof (intro conjI impI)
  assume st: "Statement p = [\<lparr> Effect = ''Allow'', Principal = ''*'', Action = [''s3:GetObject''],
                            Resource = resources \<rparr>]"
  have len: "length (Statement p) \<le> 1"
    using st by simp
  have ex: "list_ex matchesPublicAccessPolicy (Statement p)"
    using st by (simp add: matchesPublicAccessPolicy_def publicAccessPolicy_def)
  show "count_calls OpDeletePublicAccessBlock (snd (checkDeletePublicAccessBlock s d b w))
          = count_calls OpDeletePublicAccessBlock w + 1"
    using reconciler_matched_count [OF assms len ex] .
  show "\<exists>n. calls (snd (checkDeletePublicAccessBlock s d b w))
               = calls w @ DeletePublicAccessBlock b # replicate n (GetPublicAccessBlock b)"
    using reconciler_matched_calls [OF assms len ex, of b w] by blast
next
  assume "Statement p = []"
  then show "checkDeletePublicAccessBlock s d b w = (None, w)"
    using reconciler_unmatched [OF assms, of b w] by simp
qed

theorem public_read_match_ignores_Resource_witness:
  "Policy (exampleDetails publicReadText) \<noteq> '''' \<and>
   unmarshalPolicy (exampleS3Bucket backendOk) (Policy (exampleDetails publicReadText))
     = Inr publicReadPolicy \<and>
   Statement publicReadPolicy
     = [\<lparr> Effect = ''Allow'', Principal = ''*'', Action = [''s3:GetObject''],
          Resource = [''arn:aws:s3:::my-bucket/*''] \<rparr>] \<and>
   count_calls OpDeletePublicAccessBlock
     (snd (checkDeletePublicAccessBlock (exampleS3Bucket backendOk) (exampleDetails publicReadText)
             ''my-bucket'' w0)) = 1 \<and>
   Policy (exampleDetails noStatementText) \<noteq> '''' \<and>
   unmarshalPolicy (exampleS3Bucket backendOk) (Policy (exampleDetails noStatementText))
     = Inr noStatementPolicy \<and>
   Statement noStatementPolicy = [] \<and>
   checkDeletePublicAccessBlock (exampleS3Bucket backendOk) (exampleDetails noStatementText)
     ''my-bucket'' w0 = (None, w0)"
proof -
  have z: "count_calls OpDeletePublicAccessBlock w0 = 0"
    by (simp add: count_calls_def w0_def)
  have a1: "Policy (exampleDetails publicReadText) \<noteq> ''''"
    by (simp add: exampleDetails_def publicReadText_def)
  have a2: "unmarshalPolicy (exampleS3Bucket backendOk) (Policy (exampleDetails publicReadText))
              = Inr publicReadPolicy"
    by (simp add: exampleS3Bucket_def exampleDetails_def exampleUnmarshalPolicy_def)
  have a3: "Statement publicReadPolicy
     = [\<lparr> Effect = ''Allow'', Principal = ''*'', Action = [''s3:GetObject''],
          Resource = [''arn:aws:s3:::my-bucket/*''] \<rparr>]"
    by (simp add: publicReadPolicy_def)
  have b1: "Policy (exampleDetails noStatementText) \<noteq> ''''"
    by (simp add: exampleDetails_def noStatementText_def)
  have b2: "unmarshalPolicy (exampleS3Bucket backendOk) (Policy (exampleDetails noStatementText))
              = Inr noStatementPolicy"
    by (simp add: exampleS3Bucket_def exampleDetails_def exampleUnmarshalPolicy_def
        noStatementText_def publicReadText_def putObjectText_def twoStatementText_def)
  have b3: "Statement noStatementPolicy = []"
    by (simp add: noStatementPolicy_def)
  from public_read_match_ignores_Resource [OF a1 a2, of "[''arn:aws:s3:::my-bucket/*'']" "''my-bucket''" w0] a3
  have one: "count_calls OpDeletePublicAccessBlock
     (snd (checkDeletePublicAccessBlock (exampleS3Bucket backendOk) (exampleDetails publicReadText)
             ''my-bucket'' w0)) = 1"
    by (simp add: z)
  from public_read_match_ignores_Resource [OF b1 b2, of "[]" "''my-bucket''" w0] b3
  have none: "checkDeletePublicAccessBlock (exampleS3Bucket backendOk) (exampleDetails noStatementText)
     ''my-bucket'' w0 = (None, w0)"
    by simp
  show ?thesis
    using a1 a2 a3 b1 b2 b3 one none by simp
qed

section \<open>Deleting a bucket that is absent\<close>

lemma bucketAbsent_isNoSuchBucketError:
  "bucketAbsent e \<Longrightarrow> isNoSuchBucketError e = Returns True"
  by (induction e rule: bucketAbsent.induct) simp_all

lemma handleDeleteError_absent:
  "bucketAbsent e \<Longrightarrow> handleDeleteError e = Returns None"
  by (simp add: handleDeleteError_def bucketAbsent_isNoSuchBucketError)

lemma handleDeleteError_many_causes:
  "moreThanOneCause e \<Longrightarrow> handleDeleteError e = Returns (Some e)"
  by (cases e) (simp_all add: handleDeleteError_def)

lemma okOrAbsent_handled:
  "okOrAbsent r \<Longrightarrow>
   (case resp_err r of Some e \<Rightarrow> handleDeleteError e | None \<Rightarrow> Returns None) = Returns None"
  by (auto simp: okOrAbsent_def handleDeleteError_absent split: option.splits)

lemma deleteBucketContents_okOrAbsent:
  "okOrAbsent (s3svc s (calls w) (BatchDeleteObjects b)) \<Longrightarrow>
   deleteBucketContents s b w = (Returns None, w\<lparr>calls := calls w @ [BatchDeleteObjects b]\<rparr>)"
  using okOrAbsent_handled [of "s3svc s (calls w) (BatchDeleteObjects b)"]
  by (simp add: deleteBucketContents_def invoke_def)

lemma Delete_after_contents:
  assumes "deleteObjects \<longrightarrow> okOrAbsent (s3svc s (calls w) (BatchDeleteObjects b))"
  shows "Delete s b deleteObjects w =
     ((case resp_err (s3svc s (if deleteObjects then calls w @ [BatchDeleteObjects b] else calls w)
                        (DeleteBucket b)) of
         Some e \<Rightarrow> handleDeleteError e
       | None \<Rightarrow> Returns None),
      w\<lparr>calls := (if deleteObjects then calls w @ [BatchDeleteObjects b] else calls w)
                     @ [DeleteBucket b]\<rparr>)"
proof (cases deleteObjects)
  case True
  then have "deleteBucketContents s b w = (Returns None, w\<lparr>calls := calls w @ [BatchDeleteObjects b]\<rparr>)"
    using assms deleteBucketContents_okOrAbsent by simp
  then show ?thesis
    using True by (simp add: Delete_def invoke_def)
next
  case False
  then show ?thesis
    by (simp add: Delete_def invoke_def)
qed

text \<open>
  Claim C4. For every bucket name, \<open>Delete\<close> returns nil when the backend reports the
  bucket absent: when the bulk deletion of the objects (if requested) and the deletion
  of the bucket each succeed or fail with a \<open>NoSuchBucket\<close> error, also one wrapped in a
  batch error with exactly that one cause. The bucket deletion is then issued, after the
  bulk deletion when that was requested, and nothing else. An aggregate error with more
  than one cause is returned to the caller as it is: from the bulk deletion, after which
  the bucket deletion is not issued, and from the bucket deletion, with or without a
  bulk deletion before it. The bulk deletion stands for the batch delete that the code
  runs on the concrete client.
\<close>

theorem Delete_absent_bucket_is_success:
  "((deleteObjects \<longrightarrow> okOrAbsent (s3svc s (calls w) (BatchDeleteObjects b))) \<and>
    okOrAbsent (s3svc s (if deleteObjects then calls w @ [BatchDeleteObjects b] else calls w)
                  (DeleteBucket b)) \<longrightarrow>
      Delete s b deleteObjects w
        = (Returns None,
           w\<lparr>calls := (if deleteObjects then calls w @ [BatchDeleteObjects b] else calls w)
                          @ [DeleteBucket b]\<rparr>)) \<and>
   (resp_err (s3svc s (calls w) (BatchDeleteObjects b)) = Some e \<and> moreThanOneCause e \<longrightarrow>
      Delete s b True w = (Returns (Some e), w\<lparr>calls := calls w @ [BatchDeleteObjects b]\<rparr>)) \<and>
   ((deleteObjects \<longrightarrow> okOrAbsent (s3svc s (calls w) (BatchDeleteObjects b))) \<and>
    resp_err (s3svc s (if deleteObjects then calls w @ [BatchDeleteObjects b] else calls w)
                (DeleteBucket b)) = Some e \<and> moreThanOneCause e \<longrightarrow>
      Delete s b deleteObjects w
        = (Returns (Some e),
           w\<lparr>calls := (if deleteObjects then calls w @ [BatchDeleteObjects b] else calls w)
                          @ [DeleteBucket b]\<rparr>))"
proof (intro conjI impI)
  assume h: "(deleteObjects \<longrightarrow> okOrAbsent (s3svc s (calls w) (BatchDeleteObjects b))) \<and>
    okOrAbsent (s3svc s (if deleteObjects then calls w @ [BatchDeleteObjects b] else calls w)
                  (DeleteBucket b))"
  then have c: "deleteObjects \<longrightarrow> okOrAbsent (s3svc s (calls w) (BatchDeleteObjects b))"
    and d: "okOrAbsent (s3svc s (if deleteObjects then calls w @ [BatchDeleteObjects b] else calls w)
                  (DeleteBucket b))"
    by simp_all
  show "Delete s b deleteObjects w
        = (Returns None,
           w\<lparr>calls := (if deleteObjects then calls w @ [BatchDeleteObjects b] else calls w)
                          @ [DeleteBucket b]\<rparr>)"
    unfolding Delete_after_contents [OF c] okOrAbsent_handled [OF d] ..
next
  assume "resp_err (s3svc s (calls w) (BatchDeleteObjects b)) = Some e \<and> moreThanOneCause e"
  then show "Delete s b True w = (Returns (Some e), w\<lparr>calls := calls w @ [BatchDeleteObjects b]\<rparr>)"
    by (simp add: Delete_def deleteBucketContents_def invoke_def handleDeleteError_many_causes)
next
  assume h: "(deleteObjects \<longrightarrow> okOrAbsent (s3svc s (calls w) (BatchDeleteObjects b))) \<and>
    resp_err (s3svc s (if deleteObjects then calls w @ [BatchDeleteObjects b] else calls w)
                (DeleteBucket b)) = Some e \<and> moreThanOneCause e"
  then have c: "deleteObjects \<longrightarrow> okOrAbsent (s3svc s (calls w) (BatchDeleteObjects b))"
    and r: "resp_err (s3svc s (if deleteObjects then calls w @ [BatchDeleteObjects b] else calls w)
                (DeleteBucket b)) = Some e"
    and m: "moreThanOneCause e"
    by simp_all
  show "Delete s b deleteObjects w
        = (Returns (Some e),
           w\<lparr>calls := (if deleteObjects then calls w @ [BatchDeleteObjects b] else calls w)
                          @ [DeleteBucket b]\<rparr>)"
    unfolding Delete_after_contents [OF c] r by (simp add: handleDeleteError_many_causes [OF m])
qed

theorem Delete_absent_bucket_is_success_witness:
  "okOrAbsent (s3svc (exampleS3Bucket backendAbsent) (calls w0) (BatchDeleteObjects ''my-bucket'')) \<and>
   okOrAbsent (s3svc (exampleS3Bucket backendAbsent) (calls w0 @ [BatchDeleteObjects ''my-bucket''])
                 (DeleteBucket ''my-bucket'')) \<and>
   Delete (exampleS3Bucket backendAbsent) ''my-bucket'' True w0
     = (Returns None, \<lparr>calls = [BatchDeleteObjects ''my-bucket'', DeleteBucket ''my-bucket''], slept = 0\<rparr>) \<and>
   okOrAbsent (s3svc (exampleS3Bucket backendAbsent) (calls w0) (DeleteBucket ''my-bucket'')) \<and>
   Delete (exampleS3Bucket backendAbsent) ''my-bucket'' False w0
     = (Returns None, \<lparr>calls = [DeleteBucket ''my-bucket''], slept = 0\<rparr>) \<and>
   moreThanOneCause (twoCauseError ''my-bucket'') \<and>
   resp_err (s3svc (exampleS3Bucket backendTwoCauses) (calls w0) (BatchDeleteObjects ''my-bucket''))
     = Some (twoCauseError ''my-bucket'') \<and>
   Delete (exampleS3Bucket backendTwoCauses) ''my-bucket'' True w0
     = (Returns (Some (twoCauseError ''my-bucket'')),
        \<lparr>calls = [BatchDeleteObjects ''my-bucket''], slept = 0\<rparr>) \<and>
   okOrAbsent (s3svc (exampleS3Bucket backendDeleteTwoCauses) (calls w0)
                 (BatchDeleteObjects ''my-bucket'')) \<and>
   resp_err (s3svc (exampleS3Bucket backendDeleteTwoCauses) (calls w0 @ [BatchDeleteObjects ''my-bucket''])
               (DeleteBucket ''my-bucket''))
     = Some (twoCauseError ''my-bucket'') \<and>
   Delete (exampleS3Bucket backendDeleteTwoCauses) ''my-bucket'' True w0
     = (Returns (Some (twoCauseError ''my-bucket'')),
        \<lparr>calls = [BatchDeleteObjects ''my-bucket'', DeleteBucket ''my-bucket''], slept = 0\<rparr>) \<and>
   resp_err (s3svc (exampleS3Bucket backendDeleteTwoCauses) (calls w0) (DeleteBucket ''my-bucket''))
     = Some (twoCauseError ''my-bucket'') \<and>
   Delete (exampleS3Bucket backendDeleteTwoCauses) ''my-bucket'' False w0
     = (Returns (Some (twoCauseError ''my-bucket'')),
        \<lparr>calls = [DeleteBucket ''my-bucket''], slept = 0\<rparr>)"
proof -
  have a1: "okOrAbsent (s3svc (exampleS3Bucket backendAbsent) (calls w0) (BatchDeleteObjects ''my-bucket''))"
    by (simp add: okOrAbsent_def exampleS3Bucket_def backendAbsent_def wrappedNoSuchBucketError_def
        noSuchBucketError_def)
  have a2: "okOrAbsent (s3svc (exampleS3Bucket backendAbsent) h (DeleteBucket ''my-bucket''))" for h
    by (simp add: okOrAbsent_def exampleS3Bucket_def backendAbsent_def noSuchBucketError_def)
  have m: "moreThanOneCause (twoCauseError ''my-bucket'')"
    by (simp add: twoCauseError_def)
  have t1: "resp_err (s3svc (exampleS3Bucket backendTwoCauses) (calls w0) (BatchDeleteObjects ''my-bucket''))
     = Some (twoCauseError ''my-bucket'')"
    by (simp add: exampleS3Bucket_def backendTwoCauses_def)
  have d1: "okOrAbsent (s3svc (exampleS3Bucket backendDeleteTwoCauses) (calls w0)
                 (BatchDeleteObjects ''my-bucket''))"
    by (simp add: okOrAbsent_def exampleS3Bucket_def backendDeleteTwoCauses_def backendOk_def)
  have t2: "resp_err (s3svc (exampleS3Bucket backendDeleteTwoCauses) h (DeleteBucket ''my-bucket''))
     = Some (twoCauseError ''my-bucket'')" for h
    by (simp add: exampleS3Bucket_def backendDeleteTwoCauses_def)
  have r1: "Delete (exampleS3Bucket backendAbsent) ''my-bucket'' True w0
     = (Returns None, \<lparr>calls = [BatchDeleteObjects ''my-bucket'', DeleteBucket ''my-bucket''], slept = 0\<rparr>)"
    using Delete_absent_bucket_is_success
      [of True "exampleS3Bucket backendAbsent" w0 "''my-bucket''"] a1 a2
    by (simp add: w0_def)
  have r2: "Delete (exampleS3Bucket backendAbsent) ''my-bucket'' False w0
     = (Returns None, \<lparr>calls = [DeleteBucket ''my-bucket''], slept = 0\<rparr>)"
    using Delete_absent_bucket_is_success
      [of False "exampleS3Bucket backendAbsent" w0 "''my-bucket''"] a2
    by (simp add: w0_def)
  have r3: "Delete (exampleS3Bucket backendTwoCauses) ''my-bucket'' True w0
     = (Returns (Some (twoCauseError ''my-bucket'')),
        \<lparr>calls = [BatchDeleteObjects ''my-bucket''], slept = 0\<rparr>)"
    using Delete_absent_bucket_is_success
      [of True "exampleS3Bucket backendTwoCauses" w0 "''my-bucket''" "twoCauseError ''my-bucket''"] t1 m
    by (simp add: w0_def)
  have r4: "Delete (exampleS3Bucket backendDeleteTwoCauses) ''my-bucket'' True w0
     = (Returns (Some (twoCauseError ''my-bucket'')),
        \<lparr>calls = [BatchDeleteObjects ''my-bucket'', DeleteBucket ''my-bucket''], slept = 0\<rparr>)"
    using Delete_absent_bucket_is_success
      [of True "exampleS3Bucket backendDeleteTwoCauses" w0 "''my-bucket''" "twoCauseError ''my-bucket''"]
      d1 t2 m
    by (simp add: w0_def)
  have r5: "Delete (exampleS3Bucket backendDeleteTwoCauses) ''my-bucket'' False w0
     = (Returns (Some (twoCauseError ''my-bucket'')),
        \<lparr>calls = [DeleteBucket ''my-bucket''], slept = 0\<rparr>)"
    using Delete_absent_bucket_is_success
      [of False "exampleS3Bucket backendDeleteTwoCauses" w0 "''my-bucket''" "twoCauseError ''my-bucket''"]
      t2 m
    by (simp add: w0_def)
  show ?thesis
    using a1 a2 m t1 d1 t2 r1 r2 r3 r4 r5 by simp
qed

section \<open>Rendering the policy\<close>

lemma noOpening_tail:
  "noOpening (c # cs) \<Longrightarrow> noOpening cs"
  by (cases cs) simp_all

lemma noOpening_head:
  "noOpening (c # cs) \<Longrightarrow> take 2 (c # cs) \<noteq> ''{{''"
  by (cases cs) auto

lemma render_step_text:
  assumes "t \<noteq> []" and "take 2 t \<noteq> ''{{''"
  shows "renderPolicyTemplate t d =
     (case renderPolicyTemplate (tl t) d of Inl e \<Rightarrow> Inl e | Inr rest \<Rightarrow> Inr (hd t # rest))"
proof (cases t)
  case Nil
  then show ?thesis using assms(1) by simp
next
  case (Cons c cs)
  have "take 2 (c # cs) \<noteq> ''{{''"
    using assms(2) unfolding Cons .
  then have "renderPolicyTemplate (c # cs) d =
     (case renderPolicyTemplate cs d of Inl e \<Rightarrow> Inl e | Inr rest \<Rightarrow> Inr (c # rest))"
    by (simp only: renderPolicyTemplate.simps if_False)
  then show ?thesis
    unfolding Cons list.sel .
qed

lemma render_step_placeholder:
  assumes "take (length bucketNamePlaceholder) t = bucketNamePlaceholder"
  shows "renderPolicyTemplate t d =
     (case renderPolicyTemplate (drop (length bucketNamePlaceholder) t) d of
        Inl e \<Rightarrow> Inl e | Inr rest \<Rightarrow> Inr (BucketName d @ rest))"
proof -
  have ne: "t \<noteq> []"
    using assms by (auto simp: bucketNamePlaceholder_def)
  have "take 2 (take (length bucketNamePlaceholder) t) = take 2 bucketNamePlaceholder"
    using assms by simp
  then have two: "take 2 t = ''{{''"
    by (simp add: bucketNamePlaceholder_def numeral_2_eq_2)
  obtain c cs where t: "t = c # cs"
    using ne by (cases t) auto
  have "renderPolicyTemplate (c # cs) d =
     (case renderPolicyTemplate (drop (length bucketNamePlaceholder) (c # cs)) d of
        Inl e \<Rightarrow> Inl e | Inr rest \<Rightarrow> Inr (BucketName d @ rest))"
    using two assms unfolding t by (simp only: renderPolicyTemplate.simps if_True simp_thms)
  then show ?thesis
    unfolding t .
qed

lemma render_plain:
  "noOpening x \<Longrightarrow> renderPolicyTemplate x d = Inr x"
proof (induction x)
  case Nil
  show ?case by simp
next
  case (Cons c cs)
  have ih: "renderPolicyTemplate cs d = Inr cs"
    using Cons.IH noOpening_tail [OF Cons.prems] by simp
  show ?case
    using render_step_text [OF _ noOpening_head [OF Cons.prems], of d] ih by simp
qed

lemma render_placeholder:
  "renderPolicyTemplate (bucketNamePlaceholder @ r) d =
     (case renderPolicyTemplate r d of Inl e \<Rightarrow> Inl e | Inr z \<Rightarrow> Inr (BucketName d @ z))"
  using render_step_placeholder [of "bucketNamePlaceholder @ r" d] by simp

lemma render_text_then_placeholder:
  "noOpening (x @ ''{'') \<Longrightarrow>
   renderPolicyTemplate (x @ bucketNamePlaceholder @ r) d =
     (case renderPolicyTemplate (bucketNamePlaceholder @ r) d of
        Inl e \<Rightarrow> Inl e | Inr z \<Rightarrow> Inr (x @ z))"
proof (induction x)
  case Nil
  show ?case by (simp split: sum.splits)
next
  case (Cons c cs)
  have tl: "noOpening (cs @ ''{'')"
    using noOpening_tail [of c "cs @ ''{''"] Cons.prems by simp
  have "take 2 ((c # cs) @ ''{'') \<noteq> ''{{''"
    using noOpening_head [of c "cs @ ''{''"] Cons.prems by simp
  then have no: "take 2 ((c # cs) @ bucketNamePlaceholder @ r) \<noteq> ''{{''"
    by (cases cs) (auto simp: bucketNamePlaceholder_def)
  have ne: "(c # cs) @ bucketNamePlaceholder @ r \<noteq> []"
    by simp
  show ?case
    using render_step_text [OF ne no, of d] Cons.IH [OF tl]
    by (simp split: sum.splits)
qed

lemma render_segments:
  "plainSegments segments \<Longrightarrow>
   renderPolicyTemplate (joinWith bucketNamePlaceholder segments) d
     = Inr (joinWith (BucketName d) segments)"
proof (induction segments rule: plainSegments.induct)
  case 1
  show ?case by simp
next
  case (2 x)
  then show ?case by (simp add: render_plain)
next
  case (3 x y ys)
  then have x: "noOpening (x @ ''{'')" and rest: "plainSegments (y # ys)"
    by simp_all
  show ?case
    using render_text_then_placeholder [OF x, of "joinWith bucketNamePlaceholder (y # ys)" d]
      render_placeholder [of "joinWith bucketNamePlaceholder (y # ys)" d] "3.IH" [OF rest]
    by simp
qed

text \<open>
  Claim C8. For every policy template whose only placeholders are the bucket-name
  placeholder, that is, text segments joined by \<open>{{.BucketName}}\<close>, rendering it during
  the policy application with a bucket name (\<open>my-bucket\<close>, or any other) gives the same
  segments joined by the bucket name: every occurrence of the placeholder is replaced
  and every other character is unchanged. That document is what every
  \<open>PutBucketPolicy\<close> call of the application carries. The template engine is the
  modelled one.
\<close>

theorem policy_template_substitutes_bucket_name:
  assumes "renderTemplate s = renderPolicyTemplate"
    and "plainSegments segments"
    and "Policy d = joinWith bucketNamePlaceholder segments"
    and "Policy d \<noteq> ''''"
  shows "renderPolicyTemplate (Policy d) (d\<lparr>BucketName := bucketName\<rparr>)
           = Inr (joinWith bucketName segments) \<and>
         (\<exists>n. 1 \<le> n \<and>
            calls (snd (putBucketPolicyWithRetries s d bucketName w))
              = calls w @ replicate n (PutBucketPolicy bucketName (joinWith bucketName segments)))"
proof -
  have r: "renderPolicyTemplate (Policy d) (d\<lparr>BucketName := bucketName\<rparr>)
             = Inr (joinWith bucketName segments)"
    using render_segments [OF assms(2), of "d\<lparr>BucketName := bucketName\<rparr>"] assms(3) by simp
  then have r': "renderTemplate s (Policy d) (d\<lparr>BucketName := bucketName\<rparr>)
             = Inr (joinWith bucketName segments)"
    using assms(1) by simp
  from policy_apply_trace [OF assms(4) r', of w] r show ?thesis
    by blast
qed

theorem policy_template_substitutes_bucket_name_witness:
  "renderTemplate (templatingS3Bucket backendOk) = renderPolicyTemplate \<and>
   plainSegments exampleSegments \<and>
   Policy (exampleDetails (joinWith bucketNamePlaceholder exampleSegments))
     = joinWith bucketNamePlaceholder exampleSegments \<and>
   joinWith bucketNamePlaceholder exampleSegments
     = ''{\"Id\":\"{{.BucketName}}-policy\",\"Resource\":[\"arn:aws:s3:::{{.BucketName}}/*\"]}'' \<and>
   renderPolicyTemplate (joinWith bucketNamePlaceholder exampleSegments)
       ((exampleDetails (joinWith bucketNamePlaceholder exampleSegments))\<lparr>BucketName := ''my-bucket''\<rparr>)
     = Inr ''{\"Id\":\"my-bucket-policy\",\"Resource\":[\"arn:aws:s3:::my-bucket/*\"]}'' \<and>
   hd (calls (snd (putBucketPolicyWithRetries (templatingS3Bucket backendOk)
                     (exampleDetails (joinWith bucketNamePlaceholder exampleSegments)) ''my-bucket'' w0)))
     = PutBucketPolicy ''my-bucket''
         ''{\"Id\":\"my-bucket-policy\",\"Resource\":[\"arn:aws:s3:::my-bucket/*\"]}''"
proof -
  have h1: "renderTemplate (templatingS3Bucket backendOk) = renderPolicyTemplate"
    by (simp add: templatingS3Bucket_def)
  have h2: "plainSegments exampleSegments"
    by (simp add: exampleSegments_def)
  have h3: "Policy (exampleDetails (joinWith bucketNamePlaceholder exampleSegments))
              = joinWith bucketNamePlaceholder exampleSegments"
    by (simp add: exampleDetails_def)
  have t: "joinWith bucketNamePlaceholder exampleSegments
     = ''{\"Id\":\"{{.BucketName}}-policy\",\"Resource\":[\"arn:aws:s3:::{{.BucketName}}/*\"]}''"
    by (simp add: exampleSegments_def bucketNamePlaceholder_def)
  have h4: "Policy (exampleDetails (joinWith bucketNamePlaceholder exampleSegments)) \<noteq> ''''"
    by (simp add: exampleDetails_def t)
  have j: "joinWith ''my-bucket'' exampleSegments
     = ''{\"Id\":\"my-bucket-policy\",\"Resource\":[\"arn:aws:s3:::my-bucket/*\"]}''"
    by (simp add: exampleSegments_def)
  from policy_template_substitutes_bucket_name [OF h1 h2 h3 h4, of "''my-bucket''" w0]
  obtain n where n: "renderPolicyTemplate (Policy (exampleDetails (joinWith bucketNamePlaceholder exampleSegments)))
       ((exampleDetails (joinWith bucketNamePlaceholder exampleSegments))\<lparr>BucketName := ''my-bucket''\<rparr>)
      = Inr (joinWith ''my-bucket'' exampleSegments)"
    "1 \<le> n"
    "calls (snd (putBucketPolicyWithRetries (templatingS3Bucket backendOk)
                     (exampleDetails (joinWith bucketNamePlaceholder exampleSegments)) ''my-bucket'' w0))
       = calls w0 @ replicate n (PutBucketPolicy ''my-bucket'' (joinWith ''my-bucket'' exampleSegments))"
    by blast
  have hd: "hd (calls (snd (putBucketPolicyWithRetries (templatingS3Bucket backendOk)
                     (exampleDetails (joinWith bucketNamePlaceholder exampleSegments)) ''my-bucket'' w0)))
     = PutBucketPolicy ''my-bucket'' (joinWith ''my-bucket'' exampleSegments)"
    using n(2,3) by (cases n) (simp_all add: w0_def)
  show ?thesis
    using h1 h2 h3 t n(1) hd by (simp add: j)
qed

end
